theory Spec2Isabelle
  imports Complex_Main
begin

section \<open>SimpleEQ: a shallow embedding of the plugin's processing core\<close>

text \<open>
  The embedding follows \<^verbatim>\<open>PluginProcessor.h\<close>, \<^verbatim>\<open>PluginProcessor.cpp\<close> and the editor
  source. Mutation is explicit state passing. An index outside a buffer or an array, a
  null dereference and a failed assertion of the repository's own (the \<^verbatim>\<open>jassert\<close>s of
  \<^verbatim>\<open>SingleChannelSampleFifo::update\<close>) are values of \<open>error\<close>; a function that can hit one
  returns \<open>error + 'a\<close>. Samples and filter taps are
  \<^verbatim>\<open>float\<close>/\<^verbatim>\<open>double\<close> in the source and \<open>real\<close> here; C++ \<^verbatim>\<open>int\<close> is \<open>int\<close> (the indices
  and counts of this program stay far below \<open>2 ^ 31\<close>).
\<close>

datatype error =
    NullPointer
  | ChannelOutOfRange
  | SampleOutOfRange
  | SlotOutOfRange
  | NotPrepared
  | NegativeSize
  | BadEnumValue

definition bind_r :: "error + 'a \<Rightarrow> ('a \<Rightarrow> error + 'b) \<Rightarrow> error + 'b" where
  "bind_r m f = (case m of Inl e \<Rightarrow> Inl e | Inr x \<Rightarrow> f x)"

text \<open>Whether a computation returned normally.\<close>

definition succeeds :: "error + 'a \<Rightarrow> bool" where
  "succeeds r = (case r of Inl _ \<Rightarrow> False | Inr _ \<Rightarrow> True)"

subsection \<open>\<^verbatim>\<open>juce::AbstractFifo\<close>: the index arithmetic behind \<^verbatim>\<open>Fifo\<close>\<close>

text \<open>
  \<^verbatim>\<open>Fifo\<close> keeps its read and write cursors in a \<^verbatim>\<open>juce::AbstractFifo\<close>. That class
  belongs to the JUCE framework, not to the repository; its three integers and the
  arithmetic of \<^verbatim>\<open>getNumReady\<close>, \<^verbatim>\<open>getFreeSpace\<close>, \<^verbatim>\<open>prepareToWrite\<close>, \<^verbatim>\<open>finishedWrite\<close>,
  \<^verbatim>\<open>prepareToRead\<close> and \<^verbatim>\<open>finishedRead\<close> are transcribed from the framework
  (\<^verbatim>\<open>juce_AbstractFifo.cpp\<close>). One slot always stays free, so a buffer of size \<open>n\<close>
  holds at most \<open>n - 1\<close> items.
\<close>

record AbstractFifo =
  bufferSize :: int
  validStart :: int
  validEnd :: int

definition AbstractFifo_new :: "int \<Rightarrow> AbstractFifo" where
  "AbstractFifo_new capacity = \<lparr>bufferSize = capacity, validStart = 0, validEnd = 0\<rparr>"

definition getNumReady :: "AbstractFifo \<Rightarrow> int" where
  "getNumReady a =
     (let vs = validStart a; ve = validEnd a
      in if ve \<ge> vs then ve - vs else bufferSize a - (vs - ve))"

definition getFreeSpace :: "AbstractFifo \<Rightarrow> int" where
  "getFreeSpace a = bufferSize a - getNumReady a - 1"

text \<open>The four outputs of \<^verbatim>\<open>prepareToWrite\<close> and \<^verbatim>\<open>prepareToRead\<close>.\<close>

record FifoRegion =
  startIndex1 :: int
  blockSize1 :: int
  startIndex2 :: int
  blockSize2 :: int

definition prepareToWrite :: "AbstractFifo \<Rightarrow> int \<Rightarrow> FifoRegion" where
  "prepareToWrite a numToWrite =
     (let vs = validStart a; ve = validEnd a;
          freeSpace = (if ve \<ge> vs then bufferSize a - (ve - vs) else vs - ve);
          n = min numToWrite (freeSpace - 1)
      in if n \<le> 0
         then \<lparr>startIndex1 = 0, blockSize1 = 0, startIndex2 = 0, blockSize2 = 0\<rparr>
         else (let b1 = min (bufferSize a - ve) n; n' = n - b1
               in \<lparr>startIndex1 = ve, blockSize1 = b1, startIndex2 = 0,
                   blockSize2 = (if n' \<le> 0 then 0 else min n' vs)\<rparr>))"

definition finishedWrite :: "AbstractFifo \<Rightarrow> int \<Rightarrow> AbstractFifo" where
  "finishedWrite a numWritten =
     (let newEnd = validEnd a + numWritten;
          newEnd' = (if newEnd \<ge> bufferSize a then newEnd - bufferSize a else newEnd)
      in a\<lparr>validEnd := newEnd'\<rparr>)"

definition prepareToRead :: "AbstractFifo \<Rightarrow> int \<Rightarrow> FifoRegion" where
  "prepareToRead a numWanted =
     (let vs = validStart a; ve = validEnd a;
          numReady = (if ve \<ge> vs then ve - vs else bufferSize a - (vs - ve));
          n = min numWanted numReady
      in if n \<le> 0
         then \<lparr>startIndex1 = 0, blockSize1 = 0, startIndex2 = 0, blockSize2 = 0\<rparr>
         else (let b1 = min (bufferSize a - vs) n; n' = n - b1
               in \<lparr>startIndex1 = vs, blockSize1 = b1, startIndex2 = 0,
                   blockSize2 = (if n' \<le> 0 then 0 else min n' ve)\<rparr>))"

definition finishedRead :: "AbstractFifo \<Rightarrow> int \<Rightarrow> AbstractFifo" where
  "finishedRead a numRead =
     (let newStart = validStart a + numRead;
          newStart' = (if newStart \<ge> bufferSize a then newStart - bufferSize a else newStart)
      in a\<lparr>validStart := newStart'\<rparr>)"

subsection \<open>\<^verbatim>\<open>Fifo\<close>\<close>

text \<open>
  \<^verbatim>\<open>Fifo<T>\<close> is a \<^verbatim>\<open>std::array<T, Capacity>\<close> with \<^verbatim>\<open>Capacity = 30\<close> and an
  \<^verbatim>\<open>AbstractFifo {Capacity}\<close>. \<^verbatim>\<open>fifo.write(1)\<close> and \<^verbatim>\<open>fifo.read(1)\<close> return scoped objects:
  their constructor calls \<^verbatim>\<open>prepareToWrite\<close> (\<^verbatim>\<open>prepareToRead\<close>), their destructor, which
  runs when \<^verbatim>\<open>push\<close> (\<^verbatim>\<open>pull\<close>) returns, calls \<^verbatim>\<open>finishedWrite\<close> (\<^verbatim>\<open>finishedRead\<close>) with
  \<^verbatim>\<open>blockSize1 + blockSize2\<close>. An index outside the array is \<open>SlotOutOfRange\<close>.
\<close>

definition Capacity :: int where
  "Capacity = 30"

record 't Fifo =
  buffers :: "'t list"
  fifo :: AbstractFifo

definition Fifo_new :: "'t \<Rightarrow> 't Fifo" where
  "Fifo_new t0 = \<lparr>buffers = replicate (nat Capacity) t0, fifo = AbstractFifo_new Capacity\<rparr>"

definition push :: "'t Fifo \<Rightarrow> 't \<Rightarrow> error + (bool \<times> 't Fifo)" where
  "push f t =
     (let write = prepareToWrite (fifo f) 1;
          fin = finishedWrite (fifo f) (blockSize1 write + blockSize2 write)
      in if blockSize1 write > 0
         then (if 0 \<le> startIndex1 write \<and> startIndex1 write < int (length (buffers f))
               then Inr (True, \<lparr>buffers = (buffers f)[nat (startIndex1 write) := t],
                                fifo = fin\<rparr>)
               else Inl SlotOutOfRange)
         else Inr (False, f\<lparr>fifo := fin\<rparr>))"

text \<open>
  \<^verbatim>\<open>pull\<close> assigns the slot to its argument \<open>t\<close> (declared \<^verbatim>\<open>const T&\<close>, used as an output
  parameter); the model returns the new value of \<open>t\<close> as third component (the old one when
  nothing was read).
\<close>

definition pull :: "'t Fifo \<Rightarrow> 't \<Rightarrow> error + (bool \<times> 't Fifo \<times> 't)" where
  "pull f t =
     (let read = prepareToRead (fifo f) 1;
          fin = finishedRead (fifo f) (blockSize1 read + blockSize2 read)
      in if blockSize1 read > 0
         then (if 0 \<le> startIndex1 read \<and> startIndex1 read < int (length (buffers f))
               then Inr (True, f\<lparr>fifo := fin\<rparr>, buffers f ! nat (startIndex1 read))
               else Inl SlotOutOfRange)
         else Inr (False, f\<lparr>fifo := fin\<rparr>, t))"

definition getNumAvailableForReading :: "'t Fifo \<Rightarrow> int" where
  "getNumAvailableForReading f = getNumReady (fifo f)"

text \<open>
  The cursors of an \<^verbatim>\<open>AbstractFifo\<close> are private and start at 0; every operation keeps
  them inside the buffer. \<open>Fifo_ok\<close> is that invariant, together with the array having
  one slot per index.
\<close>

definition AbstractFifo_ok :: "AbstractFifo \<Rightarrow> bool" where
  "AbstractFifo_ok a =
     (0 < bufferSize a \<and> 0 \<le> validStart a \<and> validStart a < bufferSize a
      \<and> 0 \<le> validEnd a \<and> validEnd a < bufferSize a)"

definition Fifo_ok :: "'t Fifo \<Rightarrow> bool" where
  "Fifo_ok f = (AbstractFifo_ok (fifo f) \<and> int (length (buffers f)) = bufferSize (fifo f))"

text \<open>Pushing a list of blocks in order, keeping the result of every \<^verbatim>\<open>push\<close>.\<close>

fun push_all :: "'t Fifo \<Rightarrow> 't list \<Rightarrow> error + (bool list \<times> 't Fifo)" where
  "push_all f [] = Inr ([], f)"
| "push_all f (t # ts) =
     bind_r (push f t) (\<lambda>(ok, f').
       bind_r (push_all f' ts) (\<lambda>(oks, f''). Inr (ok # oks, f'')))"

subsection \<open>\<^verbatim>\<open>juce::AudioBuffer<float>\<close>\<close>

text \<open>
  An audio buffer is its list of channels, each a list of samples; all channels of a
  buffer have the same length. \<^verbatim>\<open>setSize (nch, n, false, true, true)\<close> followed by use leaves
  an all-zero buffer of \<open>nch\<close> channels of \<open>n\<close> samples. \<^verbatim>\<open>setSample\<close> writes one sample; a
  channel or sample index outside the buffer is an error.
\<close>

type_synonym AudioBuffer = "real list list"

definition getNumChannels :: "AudioBuffer \<Rightarrow> int" where
  "getNumChannels b = int (length b)"

definition getNumSamples :: "AudioBuffer \<Rightarrow> int" where
  "getNumSamples b = (case b of [] \<Rightarrow> 0 | c # _ \<Rightarrow> int (length c))"

definition setSize :: "int \<Rightarrow> int \<Rightarrow> error + AudioBuffer" where
  "setSize newNumChannels newNumSamples =
     (if newNumChannels < 0 \<or> newNumSamples < 0 then Inl NegativeSize
      else Inr (replicate (nat newNumChannels) (replicate (nat newNumSamples) 0)))"

definition setSample :: "AudioBuffer \<Rightarrow> int \<Rightarrow> int \<Rightarrow> real \<Rightarrow> error + AudioBuffer" where
  "setSample b destChannel destSample newValue =
     (if \<not> (0 \<le> destChannel \<and> destChannel < getNumChannels b) then Inl ChannelOutOfRange
      else if \<not> (0 \<le> destSample \<and> destSample < int (length (b ! nat destChannel)))
      then Inl SampleOutOfRange
      else Inr (b[nat destChannel := (b ! nat destChannel)[nat destSample := newValue]]))"

definition getReadPointer :: "AudioBuffer \<Rightarrow> int \<Rightarrow> error + real list" where
  "getReadPointer b channelNumber =
     (if 0 \<le> channelNumber \<and> channelNumber < getNumChannels b
      then Inr (b ! nat channelNumber) else Inl ChannelOutOfRange)"

subsection \<open>\<^verbatim>\<open>SingleChannelSampleFifo\<close>\<close>

datatype Channel = Right | Left

fun Channel_int :: "Channel \<Rightarrow> int" where
  "Channel_int Right = 0"
| "Channel_int Left = 1"

record SingleChannelSampleFifo =
  channelToUse :: Channel
  fifoIndex :: int
  audioBufferFifo :: "AudioBuffer Fifo"
  bufferToFill :: AudioBuffer
  prepared :: bool
  size_atomic :: int

definition SingleChannelSampleFifo_new :: "Channel \<Rightarrow> SingleChannelSampleFifo" where
  "SingleChannelSampleFifo_new ch =
     \<lparr>channelToUse = ch, fifoIndex = 0, audioBufferFifo = Fifo_new [],
      bufferToFill = [], prepared = False, size_atomic = 0\<rparr>"

text \<open>
  \<^verbatim>\<open>Fifo::prepared (numChannels, numSamples)\<close> resizes and clears every slot. (The sample
  fifo calls it under the name \<^verbatim>\<open>prepare\<close>.)
\<close>

definition Fifo_prepared :: "AudioBuffer Fifo \<Rightarrow> int \<Rightarrow> int \<Rightarrow> error + AudioBuffer Fifo" where
  "Fifo_prepared f numCh numS =
     bind_r (setSize numCh numS) (\<lambda>b. Inr (f\<lparr>buffers := map (\<lambda>_. b) (buffers f)\<rparr>))"

definition prepare :: "SingleChannelSampleFifo \<Rightarrow> int \<Rightarrow> error + SingleChannelSampleFifo" where
  "prepare s bufSize =
     bind_r (setSize 1 bufSize) (\<lambda>b.
     bind_r (Fifo_prepared (audioBufferFifo s) 1 bufSize) (\<lambda>f.
       Inr (s\<lparr>size_atomic := bufSize, bufferToFill := b, audioBufferFifo := f,
              fifoIndex := 0, prepared := True\<rparr>)))"

definition pushNextSampleIntoFifo ::
  "SingleChannelSampleFifo \<Rightarrow> real \<Rightarrow> error + SingleChannelSampleFifo" where
  "pushNextSampleIntoFifo s sample =
     bind_r (if fifoIndex s = getNumSamples (bufferToFill s)
             then bind_r (push (audioBufferFifo s) (bufferToFill s)) (\<lambda>(ok, f).
                    Inr (s\<lparr>audioBufferFifo := f, fifoIndex := 0\<rparr>))
             else Inr s) (\<lambda>s1.
     bind_r (setSample (bufferToFill s1) 0 (fifoIndex s1) sample) (\<lambda>b.
       Inr (s1\<lparr>bufferToFill := b, fifoIndex := fifoIndex s1 + 1\<rparr>)))"

text \<open>The loop of \<^verbatim>\<open>update\<close> over the samples of the channel.\<close>

fun pushSamples :: "SingleChannelSampleFifo \<Rightarrow> real list \<Rightarrow> error + SingleChannelSampleFifo" where
  "pushSamples s [] = Inr s"
| "pushSamples s (x # xs) = bind_r (pushNextSampleIntoFifo s x) (\<lambda>s'. pushSamples s' xs)"

definition update_fifo :: "SingleChannelSampleFifo \<Rightarrow> AudioBuffer \<Rightarrow> error + SingleChannelSampleFifo" where
  "update_fifo s buffer =
     (if \<not> prepared s then Inl NotPrepared
      else if \<not> (getNumChannels buffer > Channel_int (channelToUse s)) then Inl ChannelOutOfRange
      else bind_r (getReadPointer buffer (Channel_int (channelToUse s))) (\<lambda>channelPtr.
             pushSamples s channelPtr))"

definition getNumCompleteBuffersAvailable :: "SingleChannelSampleFifo \<Rightarrow> int" where
  "getNumCompleteBuffersAvailable s = getNumAvailableForReading (audioBufferFifo s)"

definition getAudioBuffer ::
  "SingleChannelSampleFifo \<Rightarrow> AudioBuffer \<Rightarrow> error + (bool \<times> SingleChannelSampleFifo \<times> AudioBuffer)" where
  "getAudioBuffer s buf =
     bind_r (pull (audioBufferFifo s) buf) (\<lambda>(ok, f, buf').
       Inr (ok, s\<lparr>audioBufferFifo := f\<rparr>, buf'))"

subsection \<open>Parameters: \<^verbatim>\<open>Slope\<close> and \<^verbatim>\<open>ChainSettings\<close>\<close>

datatype Slope = Slope_12 | Slope_24 | Slope_36 | Slope_48

text \<open>The value of the enumerator, as the arithmetic \<^verbatim>\<open>(slope + 1) * 2\<close> reads it.\<close>

fun Slope_int :: "Slope \<Rightarrow> int" where
  "Slope_int Slope_12 = 0"
| "Slope_int Slope_24 = 1"
| "Slope_int Slope_36 = 2"
| "Slope_int Slope_48 = 3"

record ChainSettings =
  peakFreq :: real
  peakGainInDecibels :: real
  peakQuality :: real
  lowCutFreq :: real
  highCutFreq :: real
  lowCutSlope :: Slope
  highCutSlope :: Slope

subsection \<open>Coefficient objects and the filters that point to them\<close>

text \<open>
  \<^verbatim>\<open>Coefficients\<close> is \<^verbatim>\<open>Filter::CoefficientsPtr\<close>, a reference-counted pointer to a
  coefficient object. Several pointers may name one object, so the objects live in an
  explicit store: the store is the list of all coefficient objects ever allocated, an
  address is an index into it, and a pointer is an address or null (\<open>None\<close>). An object
  is its list of taps. Dereferencing null is \<open>NullPointer\<close>.
\<close>

type_synonym taps = "real list"
type_synonym heap = "taps list"
type_synonym Coefficients = "nat option"

definition deref :: "heap \<Rightarrow> Coefficients \<Rightarrow> error + taps" where
  "deref h p = (case p of None \<Rightarrow> Inl NullPointer
                | Some a \<Rightarrow> if a < length h then Inr (h ! a) else Inl NullPointer)"

definition alloc :: "heap \<Rightarrow> taps \<Rightarrow> heap \<times> Coefficients" where
  "alloc h v = (h @ [v], Some (length h))"

text \<open>A \<^verbatim>\<open>ReferenceCountedArray\<close> of freshly allocated objects, one per element of \<open>vs\<close>.\<close>

definition alloc_all :: "heap \<Rightarrow> taps list \<Rightarrow> heap \<times> Coefficients list" where
  "alloc_all h vs = (h @ vs, map Some [length h..<length h + length vs])"

text \<open>\<^verbatim>\<open>ReferenceCountedArray::operator[]\<close> returns a null pointer outside the array.\<close>

definition array_at :: "Coefficients list \<Rightarrow> nat \<Rightarrow> Coefficients" where
  "array_at xs i = (if i < length xs then xs ! i else None)"

text \<open>
  An IIR \<^verbatim>\<open>Filter\<close> holds its coefficient pointer and its delay line. A \<^verbatim>\<open>CutFilter\<close> is
  a \<^verbatim>\<open>ProcessorChain\<close> of four filters with one bypass flag each; the stages are
  addressed by a template index, so an index outside \<open>0..3\<close> does not compile.
  A \<^verbatim>\<open>MonoChain\<close> is the chain low cut, peak, high cut, again with a bypass flag per
  position.
\<close>

record Filter =
  coefficients :: Coefficients
  delayLine :: "real list"

datatype StageIndex = Stage0 | Stage1 | Stage2 | Stage3

fun StageIndex_nat :: "StageIndex \<Rightarrow> nat" where
  "StageIndex_nat Stage0 = 0"
| "StageIndex_nat Stage1 = 1"
| "StageIndex_nat Stage2 = 2"
| "StageIndex_nat Stage3 = 3"

record CutFilter =
  stage :: "StageIndex \<Rightarrow> Filter"
  stageBypassed :: "StageIndex \<Rightarrow> bool"

datatype ChainPositions = LowCut | Peak | HighCut

record MonoChain =
  lowCut :: CutFilter
  peak :: Filter
  highCut :: CutFilter
  chainBypassed :: "ChainPositions \<Rightarrow> bool"

definition setBypassed :: "CutFilter \<Rightarrow> StageIndex \<Rightarrow> bool \<Rightarrow> CutFilter" where
  "setBypassed chain Index b = chain\<lparr>stageBypassed := (stageBypassed chain)(Index := b)\<rparr>"

definition isBypassed :: "CutFilter \<Rightarrow> StageIndex \<Rightarrow> bool" where
  "isBypassed chain Index = stageBypassed chain Index"

subsection \<open>\<^verbatim>\<open>updateCoefficients\<close>, \<^verbatim>\<open>update\<close> and \<^verbatim>\<open>updateCutFilter\<close>\<close>

text \<open>
  \<^verbatim>\<open>*old = *replacements;\<close> dereferences both pointers and copy-assigns the coefficient
  object: the taps of the object that \<open>old\<close> points to are overwritten by those of the
  object that \<open>replacements\<close> points to. Both pointers are \<^verbatim>\<open>const\<close> references and are
  not reseated.
\<close>

definition updateCoefficients :: "heap \<Rightarrow> Coefficients \<Rightarrow> Coefficients \<Rightarrow> error + heap" where
  "updateCoefficients h old replacements =
     bind_r (deref h replacements) (\<lambda>v.
       case old of
         None \<Rightarrow> Inl NullPointer
       | Some a \<Rightarrow> if a < length h then Inr (h[a := v]) else Inl NullPointer)"

definition update ::
  "StageIndex \<Rightarrow> heap \<Rightarrow> CutFilter \<Rightarrow> Coefficients list \<Rightarrow> error + (heap \<times> CutFilter)" where
  "update Index h chain coeffs =
     bind_r (updateCoefficients h (coefficients (stage chain Index))
               (array_at coeffs (StageIndex_nat Index))) (\<lambda>h'.
       Inr (h', setBypassed chain Index False))"

text \<open>
  The \<^verbatim>\<open>switch\<close> of \<^verbatim>\<open>updateCutFilter\<close> has no \<^verbatim>\<open>break\<close>: every case falls through to
  the cases below it. One function per case label, each ending in the next label.
\<close>

definition case_Slope_12 ::
  "heap \<Rightarrow> CutFilter \<Rightarrow> Coefficients list \<Rightarrow> error + (heap \<times> CutFilter)" where
  "case_Slope_12 h chain coeffs = update Stage0 h chain coeffs"

definition case_Slope_24 ::
  "heap \<Rightarrow> CutFilter \<Rightarrow> Coefficients list \<Rightarrow> error + (heap \<times> CutFilter)" where
  "case_Slope_24 h chain coeffs =
     bind_r (update Stage1 h chain coeffs) (\<lambda>(h', chain'). case_Slope_12 h' chain' coeffs)"

definition case_Slope_36 ::
  "heap \<Rightarrow> CutFilter \<Rightarrow> Coefficients list \<Rightarrow> error + (heap \<times> CutFilter)" where
  "case_Slope_36 h chain coeffs =
     bind_r (update Stage2 h chain coeffs) (\<lambda>(h', chain'). case_Slope_24 h' chain' coeffs)"

definition case_Slope_48 ::
  "heap \<Rightarrow> CutFilter \<Rightarrow> Coefficients list \<Rightarrow> error + (heap \<times> CutFilter)" where
  "case_Slope_48 h chain coeffs =
     bind_r (update Stage3 h chain coeffs) (\<lambda>(h', chain'). case_Slope_36 h' chain' coeffs)"

definition updateCutFilter ::
  "heap \<Rightarrow> CutFilter \<Rightarrow> Coefficients list \<Rightarrow> Slope \<Rightarrow> error + (heap \<times> CutFilter)" where
  "updateCutFilter h chain coeffs slope =
     (let chain0 = setBypassed chain Stage0 True;
          chain1 = setBypassed chain0 Stage1 True;
          chain2 = setBypassed chain1 Stage2 True;
          chain3 = setBypassed chain2 Stage3 True
      in case slope of
           Slope_48 \<Rightarrow> case_Slope_48 h chain3 coeffs
         | Slope_36 \<Rightarrow> case_Slope_36 h chain3 coeffs
         | Slope_24 \<Rightarrow> case_Slope_24 h chain3 coeffs
         | Slope_12 \<Rightarrow> case_Slope_12 h chain3 coeffs)"

text \<open>
  The stages that \<^verbatim>\<open>updateCutFilter\<close> reaches for a slope: the case label of the slope and
  the labels it falls through to.
\<close>

definition active_stages :: "Slope \<Rightarrow> StageIndex list" where
  "active_stages slope = take (nat (Slope_int slope) + 1) [Stage0, Stage1, Stage2, Stage3]"

text \<open>
  No two of these stages share a coefficient object, and none of the objects that the
  coefficient array gives them is the object of one of these stages.
\<close>

definition stages_unaliased :: "CutFilter \<Rightarrow> Coefficients list \<Rightarrow> Slope \<Rightarrow> bool" where
  "stages_unaliased chain coeffs slope =
     (distinct (map (\<lambda>k. coefficients (stage chain k)) (active_stages slope))
      \<and> list_all (\<lambda>k. array_at coeffs (StageIndex_nat k)
                      \<notin> set (map (\<lambda>j. coefficients (stage chain j)) (active_stages slope)))
           (active_stages slope))"

subsection \<open>The filter designers\<close>

text \<open>
  The coefficient arithmetic is the JUCE framework's (\<^verbatim>\<open>juce::dsp::IIR::Coefficients\<close>,
  \<^verbatim>\<open>juce::dsp::FilterDesign\<close>) and is floating point; it is a parameter of the model, the
  record \<open>L\<close> of the library functions the repository calls. Each takes the arguments
  of the C++ function in the same order. The library only checks its arguments with
  debug assertions, which are not part of the model.
\<close>

record juce_dsp =
  IIR_makeFirstOrderHighPass :: "real \<Rightarrow> real \<Rightarrow> taps"
  IIR_makeHighPass :: "real \<Rightarrow> real \<Rightarrow> real \<Rightarrow> taps"
  IIR_makeFirstOrderLowPass :: "real \<Rightarrow> real \<Rightarrow> taps"
  IIR_makeLowPass :: "real \<Rightarrow> real \<Rightarrow> real \<Rightarrow> taps"
  IIR_makePeakFilter :: "real \<Rightarrow> real \<Rightarrow> real \<Rightarrow> real \<Rightarrow> taps"
  IIR_getMagnitudeForFrequency :: "taps \<Rightarrow> real \<Rightarrow> real \<Rightarrow> real"
  MonoChain_process :: "heap \<Rightarrow> MonoChain \<Rightarrow> real list \<Rightarrow> MonoChain \<times> real list"

text \<open>
  \<^verbatim>\<open>FilterDesign::designIIRHighpassHighOrderButterworthMethod (frequency, sampleRate,
  order)\<close> of the framework builds the cascade section by section: for an odd order one
  first-order section and \<open>order div 2\<close> second-order sections, for an even order
  \<open>order div 2\<close> second-order sections, each with its own \<open>Q\<close>. The lowpass designer is
  the same loop over the lowpass sections. The loops are transcribed from the framework
  (\<^verbatim>\<open>juce_FilterDesign.cpp\<close>). C++ \<^verbatim>\<open>order % 2 == 1\<close> is false for a negative order, and a
  non-positive order runs no iteration.
\<close>

definition butterworthSections ::
  "(real \<Rightarrow> real \<Rightarrow> taps) \<Rightarrow> (real \<Rightarrow> real \<Rightarrow> real \<Rightarrow> taps) \<Rightarrow> real \<Rightarrow> real \<Rightarrow> int \<Rightarrow> taps list" where
  "butterworthSections firstOrder secondOrder frequency sampleRate order =
     (if order > 0 \<and> order mod 2 = 1
      then firstOrder sampleRate frequency
           # map (\<lambda>i. secondOrder sampleRate frequency
                         (1 / (2 * cos ((real i + 1) * pi / real_of_int order))))
                 [0..<nat (order div 2)]
      else map (\<lambda>i. secondOrder sampleRate frequency
                       (1 / (2 * cos ((2 * real i + 1) * pi / (real_of_int order * 2)))))
               [0..<nat (order div 2)])"

definition designIIRHighpassHighOrderButterworthMethod ::
  "juce_dsp \<Rightarrow> real \<Rightarrow> real \<Rightarrow> int \<Rightarrow> taps list" where
  "designIIRHighpassHighOrderButterworthMethod L frequency sampleRate order =
     butterworthSections (IIR_makeFirstOrderHighPass L) (IIR_makeHighPass L)
       frequency sampleRate order"

definition designIIRLowpassHighOrderButterworthMethod ::
  "juce_dsp \<Rightarrow> real \<Rightarrow> real \<Rightarrow> int \<Rightarrow> taps list" where
  "designIIRLowpassHighOrderButterworthMethod L frequency sampleRate order =
     butterworthSections (IIR_makeFirstOrderLowPass L) (IIR_makeLowPass L)
       frequency sampleRate order"

text \<open>\<^verbatim>\<open>juce::Decibels\<close>, with its default floor of \<open>-100\<close> dB.\<close>

definition decibelsToGain :: "real \<Rightarrow> real" where
  "decibelsToGain decibels = (if decibels > - 100 then 10 powr (decibels * 0.05) else 0)"

definition gainToDecibels :: "real \<Rightarrow> real" where
  "gainToDecibels gain = (if gain > 0 then max (- 100) (log 10 gain * 20) else - 100)"

text \<open>
  The repository's designers. Each returns freshly allocated coefficient objects, so
  each takes the store and returns the extended one.
\<close>

definition makePeakFilter :: "juce_dsp \<Rightarrow> heap \<Rightarrow> ChainSettings \<Rightarrow> real \<Rightarrow> heap \<times> Coefficients" where
  "makePeakFilter L h chainSettings sampleRate =
     alloc h (IIR_makePeakFilter L sampleRate (peakFreq chainSettings)
                (peakQuality chainSettings)
                (decibelsToGain (peakGainInDecibels chainSettings)))"

definition makeLowCutFilter ::
  "juce_dsp \<Rightarrow> heap \<Rightarrow> ChainSettings \<Rightarrow> real \<Rightarrow> heap \<times> Coefficients list" where
  "makeLowCutFilter L h chainSettings sampleRate =
     alloc_all h (designIIRHighpassHighOrderButterworthMethod L (lowCutFreq chainSettings)
                    sampleRate ((Slope_int (lowCutSlope chainSettings) + 1) * 2))"

definition makeHighCutFilter ::
  "juce_dsp \<Rightarrow> heap \<Rightarrow> ChainSettings \<Rightarrow> real \<Rightarrow> heap \<times> Coefficients list" where
  "makeHighCutFilter L h chainSettings sampleRate =
     alloc_all h (designIIRLowpassHighOrderButterworthMethod L (highCutFreq chainSettings)
                    sampleRate ((Slope_int (highCutSlope chainSettings) + 1) * 2))"

subsection \<open>The parameter tree and \<^verbatim>\<open>getChainSettings\<close>\<close>

text \<open>
  The \<^verbatim>\<open>AudioProcessorValueTreeState\<close> is read only through
  \<^verbatim>\<open>getRawParameterValue (id)->load()\<close>: a map from parameter ids to raw values, where
  an unknown id gives a null pointer. \<^verbatim>\<open>static_cast<Slope>\<close> of a \<^verbatim>\<open>float\<close> truncates
  towards zero; a result that is no enumerator of \<^verbatim>\<open>Slope\<close> is \<open>BadEnumValue\<close>.
\<close>

type_synonym AudioProcessorValueTreeState = "string \<Rightarrow> real option"

definition getRawParameterValue :: "AudioProcessorValueTreeState \<Rightarrow> string \<Rightarrow> error + real" where
  "getRawParameterValue tree parameterID =
     (case tree parameterID of None \<Rightarrow> Inl NullPointer | Some v \<Rightarrow> Inr v)"

definition truncate_float :: "real \<Rightarrow> int" where
  "truncate_float x = (if x \<ge> 0 then \<lfloor>x\<rfloor> else \<lceil>x\<rceil>)"

definition Slope_of_float :: "real \<Rightarrow> error + Slope" where
  "Slope_of_float x =
     (let n = truncate_float x
      in if n = 0 then Inr Slope_12
         else if n = 1 then Inr Slope_24
         else if n = 2 then Inr Slope_36
         else if n = 3 then Inr Slope_48
         else Inl BadEnumValue)"

definition getChainSettings :: "AudioProcessorValueTreeState \<Rightarrow> error + ChainSettings" where
  "getChainSettings tree =
     bind_r (getRawParameterValue tree ''LowCut Freq'') (\<lambda>lcf.
     bind_r (getRawParameterValue tree ''HighCut Freq'') (\<lambda>hcf.
     bind_r (getRawParameterValue tree ''Peak Freq'') (\<lambda>pf.
     bind_r (getRawParameterValue tree ''Peak Gain'') (\<lambda>pg.
     bind_r (getRawParameterValue tree ''Peak Quality'') (\<lambda>pq.
     bind_r (bind_r (getRawParameterValue tree ''LowCut Slope'') Slope_of_float) (\<lambda>lcs.
     bind_r (bind_r (getRawParameterValue tree ''HighCut Slope'') Slope_of_float) (\<lambda>hcs.
     bind_r (getRawParameterValue tree ''LowCut Freq'') (\<lambda>lcf'.
       Inr \<lparr>peakFreq = pf, peakGainInDecibels = pg, peakQuality = pq,
            lowCutFreq = lcf', highCutFreq = hcf,
            lowCutSlope = lcs, highCutSlope = hcs\<rparr>))))))))"

subsection \<open>\<^verbatim>\<open>SimpleEQAudioProcessor\<close>\<close>

record SimpleEQAudioProcessor =
  apvts :: AudioProcessorValueTreeState
  sampleRate :: real
  totalNumInputChannels :: int
  totalNumOutputChannels :: int
  store :: heap
  leftChain :: MonoChain
  rightChain :: MonoChain
  leftChannelFifo :: SingleChannelSampleFifo
  rightChannelFifo :: SingleChannelSampleFifo

definition updatePeakFilter ::
  "juce_dsp \<Rightarrow> SimpleEQAudioProcessor \<Rightarrow> ChainSettings \<Rightarrow> error + SimpleEQAudioProcessor" where
  "updatePeakFilter L p chainSettings =
     (let (h1, peakCoefficients) = makePeakFilter L (store p) chainSettings (sampleRate p)
      in bind_r (updateCoefficients h1 (coefficients (peak (leftChain p))) peakCoefficients) (\<lambda>h2.
         bind_r (updateCoefficients h2 (coefficients (peak (rightChain p))) peakCoefficients) (\<lambda>h3.
           Inr (p\<lparr>store := h3\<rparr>))))"

definition updateLowCutFilters ::
  "juce_dsp \<Rightarrow> SimpleEQAudioProcessor \<Rightarrow> ChainSettings \<Rightarrow> error + SimpleEQAudioProcessor" where
  "updateLowCutFilters L p chainSettings =
     (let (h1, lowCutCoefficients) = makeLowCutFilter L (store p) chainSettings (sampleRate p)
      in bind_r (updateCutFilter h1 (lowCut (leftChain p)) lowCutCoefficients
                   (lowCutSlope chainSettings)) (\<lambda>(h2, leftLowCut).
         bind_r (updateCutFilter h2 (lowCut (rightChain p)) lowCutCoefficients
                   (lowCutSlope chainSettings)) (\<lambda>(h3, rightLowCut).
           Inr (p\<lparr>store := h3,
                  leftChain := (leftChain p)\<lparr>lowCut := leftLowCut\<rparr>,
                  rightChain := (rightChain p)\<lparr>lowCut := rightLowCut\<rparr>\<rparr>))))"

definition updateHighCutFilters ::
  "juce_dsp \<Rightarrow> SimpleEQAudioProcessor \<Rightarrow> ChainSettings \<Rightarrow> error + SimpleEQAudioProcessor" where
  "updateHighCutFilters L p chainSettings =
     (let (h1, highCutCoefficients) = makeHighCutFilter L (store p) chainSettings (sampleRate p)
      in bind_r (updateCutFilter h1 (highCut (leftChain p)) highCutCoefficients
                   (highCutSlope chainSettings)) (\<lambda>(h2, leftHighCut).
         bind_r (updateCutFilter h2 (highCut (rightChain p)) highCutCoefficients
                   (highCutSlope chainSettings)) (\<lambda>(h3, rightHighCut).
           Inr (p\<lparr>store := h3,
                  leftChain := (leftChain p)\<lparr>highCut := leftHighCut\<rparr>,
                  rightChain := (rightChain p)\<lparr>highCut := rightHighCut\<rparr>\<rparr>))))"

definition updateFilters :: "juce_dsp \<Rightarrow> SimpleEQAudioProcessor \<Rightarrow> error + SimpleEQAudioProcessor" where
  "updateFilters L p =
     bind_r (getChainSettings (apvts p)) (\<lambda>chainSettings.
     bind_r (updateLowCutFilters L p chainSettings) (\<lambda>p1.
     bind_r (updatePeakFilter L p1 chainSettings) (\<lambda>p2.
       updateHighCutFilters L p2 chainSettings)))"

text \<open>
  \<^verbatim>\<open>isBusesLayoutSupported\<close>, for the plugin as configured (an effect: neither a MIDI
  effect nor a synth). A channel set is mono, stereo, or some other set of the given
  number of channels.
\<close>

datatype AudioChannelSet = mono | stereo | otherSet nat

fun AudioChannelSet_size :: "AudioChannelSet \<Rightarrow> nat" where
  "AudioChannelSet_size mono = 1"
| "AudioChannelSet_size stereo = 2"
| "AudioChannelSet_size (otherSet n) = n"

record BusesLayout =
  mainInputChannelSet :: AudioChannelSet
  mainOutputChannelSet :: AudioChannelSet

definition isBusesLayoutSupported :: "BusesLayout \<Rightarrow> bool" where
  "isBusesLayoutSupported layouts =
     (if mainOutputChannelSet layouts \<noteq> mono \<and> mainOutputChannelSet layouts \<noteq> stereo
      then False
      else if mainOutputChannelSet layouts \<noteq> mainInputChannelSet layouts then False
      else True)"

text \<open>
  \<^verbatim>\<open>processBlock\<close>. \<^verbatim>\<open>buffer.clear (i, 0, n)\<close> zeroes channel \<open>i\<close>;
  \<^verbatim>\<open>block.getSingleChannelBlock (c)\<close> selects channel \<open>c\<close> of the buffer; both need the
  channel to exist. The chains process their channel in place.
\<close>

definition clear_channel :: "AudioBuffer \<Rightarrow> int \<Rightarrow> error + AudioBuffer" where
  "clear_channel b channel =
     (if 0 \<le> channel \<and> channel < getNumChannels b
      then Inr (b[nat channel := map (\<lambda>_. 0) (b ! nat channel)])
      else Inl ChannelOutOfRange)"

fun clear_channels :: "AudioBuffer \<Rightarrow> int list \<Rightarrow> error + AudioBuffer" where
  "clear_channels b [] = Inr b"
| "clear_channels b (i # is) = bind_r (clear_channel b i) (\<lambda>b'. clear_channels b' is)"

definition getSingleChannelBlock :: "AudioBuffer \<Rightarrow> nat \<Rightarrow> error + real list" where
  "getSingleChannelBlock b channel =
     (if channel < length b then Inr (b ! channel) else Inl ChannelOutOfRange)"

definition processBlock ::
  "juce_dsp \<Rightarrow> SimpleEQAudioProcessor \<Rightarrow> AudioBuffer \<Rightarrow> error + (SimpleEQAudioProcessor \<times> AudioBuffer)" where
  "processBlock L p buffer =
     bind_r (clear_channels buffer [totalNumInputChannels p..totalNumOutputChannels p - 1]) (\<lambda>buffer1.
     bind_r (updateFilters L p) (\<lambda>p1.
     bind_r (getSingleChannelBlock buffer1 0) (\<lambda>leftBlock.
     bind_r (getSingleChannelBlock buffer1 1) (\<lambda>rightBlock.
       (let (leftChain', leftOut) = MonoChain_process L (store p1) (leftChain p1) leftBlock;
            (rightChain', rightOut) = MonoChain_process L (store p1) (rightChain p1) rightBlock;
            buffer2 = buffer1[0 := leftOut, 1 := rightOut]
        in bind_r (update_fifo (leftChannelFifo p1) buffer2) (\<lambda>leftFifo.
           bind_r (update_fifo (rightChannelFifo p1) buffer2) (\<lambda>rightFifo.
             Inr (p1\<lparr>leftChain := leftChain', rightChain := rightChain',
                     leftChannelFifo := leftFifo, rightChannelFifo := rightFifo\<rparr>,
                  buffer2))))))))"

subsection \<open>\<^verbatim>\<open>ResponseCurveComponent\<close>\<close>

text \<open>
  The component holds a reference to the processor (it reads its parameter tree, its
  sample rate and its left sample fifo, and its coefficient objects live in the same
  store), its own mirror \<^verbatim>\<open>monoChain\<close>, and the atomic flag \<^verbatim>\<open>parametersChanged\<close>.
  \<^verbatim>\<open>repaint()\<close> marks the component as needing a repaint.
\<close>

record ResponseCurveComponent =
  audioProcessor :: SimpleEQAudioProcessor
  parametersChanged :: bool
  monoChain :: MonoChain
  repaintRequested :: bool

definition parameterValueChanged ::
  "ResponseCurveComponent \<Rightarrow> int \<Rightarrow> real \<Rightarrow> ResponseCurveComponent" where
  "parameterValueChanged c parameterIndex newValue = c\<lparr>parametersChanged := True\<rparr>"

definition updateChain :: "juce_dsp \<Rightarrow> ResponseCurveComponent \<Rightarrow> error + ResponseCurveComponent" where
  "updateChain L c =
     (let p = audioProcessor c
      in bind_r (getChainSettings (apvts p)) (\<lambda>chainSettings.
         (let (h1, peakCoefficients) = makePeakFilter L (store p) chainSettings (sampleRate p)
          in bind_r (updateCoefficients h1 (coefficients (peak (monoChain c))) peakCoefficients) (\<lambda>h2.
             (let (h3, lowCutCoefficients) = makeLowCutFilter L h2 chainSettings (sampleRate p);
                  (h4, highCutCoefficients) = makeHighCutFilter L h3 chainSettings (sampleRate p)
              in bind_r (updateCutFilter h4 (lowCut (monoChain c)) lowCutCoefficients
                           (lowCutSlope chainSettings)) (\<lambda>(h5, lowCut').
                 bind_r (updateCutFilter h5 (highCut (monoChain c)) highCutCoefficients
                           (highCutSlope chainSettings)) (\<lambda>(h6, highCut').
                   Inr (c\<lparr>audioProcessor := p\<lparr>store := h6\<rparr>,
                          monoChain := (monoChain c)\<lparr>lowCut := lowCut', highCut := highCut'\<rparr>\<rparr>))))))))"

text \<open>
  The loop of \<^verbatim>\<open>timerCallback\<close> pulls blocks from the left sample fifo while it reports a
  complete buffer. It ends when the fifo reports none; \<open>None\<close> stands for a loop that
  never ends.
\<close>

partial_function (option) drainFifo ::
  "SingleChannelSampleFifo \<Rightarrow> AudioBuffer \<Rightarrow> (error + (SingleChannelSampleFifo \<times> AudioBuffer)) option" where
  "drainFifo s tempIncomingBuffer =
     (if getNumCompleteBuffersAvailable s > 0
      then (case getAudioBuffer s tempIncomingBuffer of
              Inl e \<Rightarrow> Some (Inl e)
            | Inr r \<Rightarrow> drainFifo (fst (snd r)) (snd (snd r)))
      else Some (Inr (s, tempIncomingBuffer)))"

definition timerCallback ::
  "juce_dsp \<Rightarrow> ResponseCurveComponent \<Rightarrow> (error + ResponseCurveComponent) option" where
  "timerCallback L c =
     (case drainFifo (leftChannelFifo (audioProcessor c)) [] of
        None \<Rightarrow> None
      | Some (Inl e) \<Rightarrow> Some (Inl e)
      | Some (Inr (leftFifo, tempIncomingBuffer)) \<Rightarrow>
          (let c1 = c\<lparr>audioProcessor := (audioProcessor c)\<lparr>leftChannelFifo := leftFifo\<rparr>\<rparr>
           in if parametersChanged c1
              then Some (bind_r (updateChain L (c1\<lparr>parametersChanged := False\<rparr>)) (\<lambda>c2.
                           Inr (c2\<lparr>repaintRequested := True\<rparr>)))
              else Some (Inr c1)))"

text \<open>
  The magnitude loop of \<^verbatim>\<open>paint\<close>: for each of the \<open>w\<close> columns of the analysis area, the
  frequency of the column, the product of the magnitudes of the stages that are not
  bypassed, and its value in decibels. \<^verbatim>\<open>juce::mapToLog10\<close> is the framework's:
  \<open>10\<close> to the power \<open>value0To1 * (log10 max - log10 min) + log10 min\<close>.
\<close>

definition mapToLog10 :: "real \<Rightarrow> real \<Rightarrow> real \<Rightarrow> real" where
  "mapToLog10 value0To1 logRangeMin logRangeMax =
     (let logMin = log 10 logRangeMin; logMax = log 10 logRangeMax
      in 10 powr (value0To1 * (logMax - logMin) + logMin))"

definition columnFrequency :: "int \<Rightarrow> int \<Rightarrow> real" where
  "columnFrequency i w = mapToLog10 (real_of_int i / real_of_int w) 20 20000"

definition multiplyStage ::
  "juce_dsp \<Rightarrow> heap \<Rightarrow> bool \<Rightarrow> Filter \<Rightarrow> real \<Rightarrow> real \<Rightarrow> real \<Rightarrow> error + real" where
  "multiplyStage L h bypassed filt freq sr mag =
     (if \<not> bypassed
      then bind_r (deref h (coefficients filt)) (\<lambda>c.
             Inr (mag * IIR_getMagnitudeForFrequency L c freq sr))
      else Inr mag)"

definition columnMagnitude ::
  "juce_dsp \<Rightarrow> heap \<Rightarrow> MonoChain \<Rightarrow> real \<Rightarrow> real \<Rightarrow> error + real" where
  "columnMagnitude L h chain sr freq =
     (let lc = lowCut chain; hc = highCut chain
      in bind_r (multiplyStage L h (chainBypassed chain Peak) (peak chain) freq sr 1) (\<lambda>m0.
         bind_r (multiplyStage L h (isBypassed lc Stage0) (stage lc Stage0) freq sr m0) (\<lambda>m1.
         bind_r (multiplyStage L h (isBypassed lc Stage1) (stage lc Stage1) freq sr m1) (\<lambda>m2.
         bind_r (multiplyStage L h (isBypassed lc Stage2) (stage lc Stage2) freq sr m2) (\<lambda>m3.
         bind_r (multiplyStage L h (isBypassed lc Stage3) (stage lc Stage3) freq sr m3) (\<lambda>m4.
         bind_r (multiplyStage L h (isBypassed hc Stage0) (stage hc Stage0) freq sr m4) (\<lambda>m5.
         bind_r (multiplyStage L h (isBypassed hc Stage1) (stage hc Stage1) freq sr m5) (\<lambda>m6.
         bind_r (multiplyStage L h (isBypassed hc Stage2) (stage hc Stage2) freq sr m6) (\<lambda>m7.
         bind_r (multiplyStage L h (isBypassed hc Stage3) (stage hc Stage3) freq sr m7) (\<lambda>m8.
           Inr (gainToDecibels m8)))))))))))"

fun magnitudes_loop ::
  "juce_dsp \<Rightarrow> heap \<Rightarrow> MonoChain \<Rightarrow> real \<Rightarrow> int \<Rightarrow> int list \<Rightarrow> error + real list" where
  "magnitudes_loop L h chain sr w [] = Inr []"
| "magnitudes_loop L h chain sr w (i # is) =
     bind_r (columnMagnitude L h chain sr (columnFrequency i w)) (\<lambda>m.
     bind_r (magnitudes_loop L h chain sr w is) (\<lambda>ms. Inr (m # ms)))"

definition paint_magnitudes :: "juce_dsp \<Rightarrow> ResponseCurveComponent \<Rightarrow> int \<Rightarrow> error + real list" where
  "paint_magnitudes L c w =
     magnitudes_loop L (store (audioProcessor c)) (monoChain c)
       (sampleRate (audioProcessor c)) w [0..w - 1]"

subsection \<open>Well-formed states\<close>

text \<open>
  Well-formed states. The pointers of a chain are valid in a store when each can be
  dereferenced. A sample fifo is well formed when its block is one channel of at least
  one sample, its cursor lies within the block (or just behind it), and its \<^verbatim>\<open>Fifo\<close> is.
\<close>

definition cut_valid :: "heap \<Rightarrow> CutFilter \<Rightarrow> bool" where
  "cut_valid h chain =
     list_all (\<lambda>k. succeeds (deref h (coefficients (stage chain k))))
       [Stage0, Stage1, Stage2, Stage3]"

definition chain_valid :: "heap \<Rightarrow> MonoChain \<Rightarrow> bool" where
  "chain_valid h chain =
     (succeeds (deref h (coefficients (peak chain)))
      \<and> cut_valid h (lowCut chain) \<and> cut_valid h (highCut chain))"

definition collector_ok :: "SingleChannelSampleFifo \<Rightarrow> bool" where
  "collector_ok s =
     ((case bufferToFill s of
         [ys] \<Rightarrow> 0 < length ys \<and> 0 \<le> fifoIndex s \<and> fifoIndex s \<le> int (length ys)
       | _ \<Rightarrow> False)
      \<and> Fifo_ok (audioBufferFifo s))"

subsection \<open>Concrete states\<close>

text \<open>A \<^verbatim>\<open>Fifo\<close> of one-sample blocks whose write cursor is one slot behind its read cursor.\<close>

definition full_example :: "AudioBuffer Fifo" where
  "full_example = \<lparr>buffers = replicate 30 [[0]],
      fifo = \<lparr>bufferSize = 30, validStart = 0, validEnd = 29\<rparr>\<rparr>"

text \<open>A sample fifo prepared for blocks of two samples, reading channel 0.\<close>

definition collector_example :: SingleChannelSampleFifo where
  "collector_example =
     \<lparr>channelToUse = Right, fifoIndex = 0, audioBufferFifo = Fifo_new [[0, 0]],
      bufferToFill = [[0, 0]], prepared = True, size_atomic = 2\<rparr>"

text \<open>
  A store of eight coefficient objects, a cut filter whose stage \<open>k\<close> points to object
  \<open>k\<close>, and a coefficient array pointing to the objects 4 to 7.
\<close>

definition heap_example :: heap where
  "heap_example = [[1], [2], [3], [4], [10], [20], [30], [40]]"

definition cut_example :: CutFilter where
  "cut_example =
     \<lparr>stage = (\<lambda>k. \<lparr>coefficients = Some (StageIndex_nat k), delayLine = []\<rparr>),
      stageBypassed = (\<lambda>k. False)\<rparr>"

definition coeffs_example :: "Coefficients list" where
  "coeffs_example = [Some 4, Some 5, Some 6, Some 7]"

text \<open>
  A stand-in for the library whose designers return their sample rate and frequency
  arguments as taps (the peak designer also its \<open>Q\<close>), and settings with every frequency
  at the top of the parameter range.
\<close>

definition probe :: juce_dsp where
  "probe =
     \<lparr>IIR_makeFirstOrderHighPass = (\<lambda>sr f. [sr, f]),
      IIR_makeHighPass = (\<lambda>sr f q. [sr, f]),
      IIR_makeFirstOrderLowPass = (\<lambda>sr f. [sr, f]),
      IIR_makeLowPass = (\<lambda>sr f q. [sr, f]),
      IIR_makePeakFilter = (\<lambda>sr f q g. [sr, f, q]),
      IIR_getMagnitudeForFrequency = (\<lambda>c f sr. 1),
      MonoChain_process = (\<lambda>h chain xs. (chain, xs))\<rparr>"

definition settings_example :: ChainSettings where
  "settings_example =
     \<lparr>peakFreq = 20000, peakGainInDecibels = 0, peakQuality = 1,
      lowCutFreq = 20000, highCutFreq = 20000,
      lowCutSlope = Slope_12, highCutSlope = Slope_12\<rparr>"

text \<open>
  A processor and a response-curve component in a state as after construction and
  \<^verbatim>\<open>prepareToPlay\<close>: the parameter tree holds the default values of
  \<^verbatim>\<open>createParameterLayout\<close>, every filter of the three chains has its own coefficient
  object (the pass-through taps a new \<^verbatim>\<open>Filter\<close> starts with), and both sample fifos are
  prepared for blocks of two samples.
\<close>

definition params_example :: AudioProcessorValueTreeState where
  "params_example =
     map_of [(''LowCut Freq'', 20), (''HighCut Freq'', 20000), (''Peak Freq'', 750),
             (''Peak Gain'', 0), (''Peak Quality'', 1),
             (''LowCut Slope'', 0), (''HighCut Slope'', 0)]"

definition chain_at :: "nat \<Rightarrow> MonoChain" where
  "chain_at base =
     \<lparr>lowCut = \<lparr>stage = (\<lambda>k. \<lparr>coefficients = Some (base + StageIndex_nat k), delayLine = []\<rparr>),
                stageBypassed = (\<lambda>k. False)\<rparr>,
      peak = \<lparr>coefficients = Some (base + 4), delayLine = []\<rparr>,
      highCut = \<lparr>stage = (\<lambda>k. \<lparr>coefficients = Some (base + 5 + StageIndex_nat k),
                                 delayLine = []\<rparr>),
                 stageBypassed = (\<lambda>k. False)\<rparr>,
      chainBypassed = (\<lambda>position. False)\<rparr>"

definition processor_example :: SimpleEQAudioProcessor where
  "processor_example =
     \<lparr>apvts = params_example, sampleRate = 48000,
      totalNumInputChannels = 2, totalNumOutputChannels = 2,
      store = replicate 27 [1, 0, 1, 0],
      leftChain = chain_at 0, rightChain = chain_at 9,
      leftChannelFifo = collector_example\<lparr>channelToUse := Left\<rparr>,
      rightChannelFifo = collector_example\<rparr>"

definition component_example :: ResponseCurveComponent where
  "component_example =
     \<lparr>audioProcessor = processor_example, parametersChanged = False,
      monoChain = chain_at 18, repaintRequested = False\<rparr>"

text \<open>A mirror chain with every stage bypassed, whose filters point nowhere.\<close>

definition bypassed_chain_example :: MonoChain where
  "bypassed_chain_example =
     \<lparr>lowCut = \<lparr>stage = (\<lambda>k. \<lparr>coefficients = None, delayLine = []\<rparr>),
                stageBypassed = (\<lambda>k. True)\<rparr>,
      peak = \<lparr>coefficients = None, delayLine = []\<rparr>,
      highCut = \<lparr>stage = (\<lambda>k. \<lparr>coefficients = None, delayLine = []\<rparr>),
                 stageBypassed = (\<lambda>k. True)\<rparr>,
      chainBypassed = (\<lambda>position. True)\<rparr>"

section \<open>Properties\<close>

lemma bind_r_simps [simp]:
  "bind_r (Inl e) f = Inl e"
  "bind_r (Inr x) f = f x"
  by (simp_all add: bind_r_def)

lemma bind_r_Inr_iff:
  "bind_r m f = Inr y \<longleftrightarrow> (\<exists>x. m = Inr x \<and> f x = Inr y)"
  by (cases m) simp_all

subsection \<open>\<^verbatim>\<open>Fifo\<close>\<close>

lemma Fifo_new_ok: "Fifo_ok (Fifo_new t0)"
  by (simp add: Fifo_ok_def AbstractFifo_ok_def Fifo_new_def AbstractFifo_new_def Capacity_def)

lemma push_full:
  assumes "Fifo_ok f" "getFreeSpace (fifo f) = 0"
  shows "push f t = Inr (False, f)"
  using assms
  by (auto simp: push_def prepareToWrite_def finishedWrite_def getFreeSpace_def
      getNumReady_def Fifo_ok_def AbstractFifo_ok_def Let_def min_def)

lemma pull_empty:
  assumes "Fifo_ok f" "getNumAvailableForReading f = 0"
  shows "pull f t = Inr (False, f, t)"
  using assms
  by (auto simp: pull_def prepareToRead_def finishedRead_def getNumAvailableForReading_def
      getNumReady_def Fifo_ok_def AbstractFifo_ok_def Let_def min_def)

lemma push_not_full:
  assumes "Fifo_ok f" "getFreeSpace (fifo f) > 0"
  shows "push f t = Inr (True, \<lparr>buffers = (buffers f)[nat (validEnd (fifo f)) := t],
           fifo = finishedWrite (fifo f) 1\<rparr>)"
  using assms
  by (auto simp: push_def prepareToWrite_def finishedWrite_def getFreeSpace_def
      getNumReady_def Fifo_ok_def AbstractFifo_ok_def Let_def min_def split: if_splits)

lemma finishedWrite_ok:
  assumes "AbstractFifo_ok a" "getFreeSpace a > 0"
  shows "AbstractFifo_ok (finishedWrite a 1) \<and> getFreeSpace (finishedWrite a 1) = getFreeSpace a - 1
     \<and> bufferSize (finishedWrite a 1) = bufferSize a"
  using assms
  by (auto simp: finishedWrite_def getFreeSpace_def
      getNumReady_def AbstractFifo_ok_def Let_def split: if_splits)

text \<open>
  Once at least as many blocks have been offered as there were free slots, no slot is
  free.
\<close>

lemma push_all_full:
  assumes "Fifo_ok f" "int (length ts) \<ge> getFreeSpace (fifo f)" "push_all f ts = Inr (oks, f')"
  shows "Fifo_ok f' \<and> getFreeSpace (fifo f') = 0"
  using assms
proof (induction ts arbitrary: f oks)
  case Nil
  then show ?case
    by (auto simp: Fifo_ok_def AbstractFifo_ok_def getFreeSpace_def getNumReady_def Let_def
        split: if_splits)
next
  case (Cons t ts)
  show ?case
  proof (cases "getFreeSpace (fifo f) > 0")
    case True
    from push_not_full[OF Cons.prems(1) True, of t] obtain g where
      g: "push f t = Inr (True, g)" "g = \<lparr>buffers = (buffers f)[nat (validEnd (fifo f)) := t],
           fifo = finishedWrite (fifo f) 1\<rparr>" by blast
    from finishedWrite_ok[of "fifo f"] Cons.prems(1) True
    have ok: "Fifo_ok g" and fr: "getFreeSpace (fifo g) = getFreeSpace (fifo f) - 1"
      by (auto simp: g(2) Fifo_ok_def)
    from Cons.prems(3) g(1) obtain oks' where "push_all g ts = Inr (oks', f')"
      by (auto simp: bind_r_Inr_iff)
    moreover have "int (length ts) \<ge> getFreeSpace (fifo g)" using Cons.prems(2) fr by simp
    ultimately show ?thesis using Cons.IH[OF ok] by blast
  next
    case False
    with Cons.prems(1) have z: "getFreeSpace (fifo f) = 0"
      by (auto simp: Fifo_ok_def AbstractFifo_ok_def getFreeSpace_def getNumReady_def Let_def
          split: if_splits)
    from push_full[OF Cons.prems(1) z, of t] Cons.prems(3)
    obtain oks' where "push_all f ts = Inr (oks', f')"
      by (auto simp: bind_r_Inr_iff)
    then show ?thesis using Cons.IH[OF Cons.prems(1)] z by simp
  qed
qed

lemma push_ok:
  assumes "Fifo_ok f"
  shows "\<exists>ok f'. push f t = Inr (ok, f') \<and> Fifo_ok f'"
proof (cases "getFreeSpace (fifo f) > 0")
  case True
  from finishedWrite_ok[of "fifo f"] assms True
  have "Fifo_ok \<lparr>buffers = (buffers f)[nat (validEnd (fifo f)) := t],
           fifo = finishedWrite (fifo f) 1\<rparr>"
    by (simp add: Fifo_ok_def)
  then show ?thesis using push_not_full[OF assms True, of t] by blast
next
  case False
  with assms have "getFreeSpace (fifo f) = 0"
    by (auto simp: Fifo_ok_def AbstractFifo_ok_def getFreeSpace_def getNumReady_def Let_def
        split: if_splits)
  then show ?thesis using push_full[OF assms, of t] assms by blast
qed

lemma push_all_ok:
  assumes "Fifo_ok f"
  shows "\<exists>oks f'. push_all f ts = Inr (oks, f')"
  using assms
proof (induction ts arbitrary: f)
  case Nil
  then show ?case by simp
next
  case (Cons t ts)
  from push_ok[OF Cons.prems, of t] obtain ok f1 where
    p: "push f t = Inr (ok, f1)" "Fifo_ok f1" by blast
  from Cons.IH[OF p(2)] obtain oks f' where "push_all f1 ts = Inr (oks, f')" by blast
  then show ?case using p(1) by simp
qed

text \<open>
  C7. A \<^verbatim>\<open>Fifo\<close> whose cursors are in range is full when its \<^verbatim>\<open>AbstractFifo\<close> has no free
  space and empty when nothing is available for reading. \<^verbatim>\<open>push\<close> on a full \<^verbatim>\<open>Fifo\<close>
  returns \<open>False\<close> and leaves the blocks and both cursors as they were; \<^verbatim>\<open>pull\<close> on an
  empty \<^verbatim>\<open>Fifo\<close> returns \<open>False\<close> and leaves the \<^verbatim>\<open>Fifo\<close> and the caller's block as they
  were. Both return at once: the model has no loop. A new \<^verbatim>\<open>Fifo\<close> is full as soon as
  \<open>Capacity - 1\<close> blocks (so also after \<open>Capacity\<close> blocks) have been pushed with no pull
  in between, and every further \<^verbatim>\<open>push\<close> is then refused without a change.
\<close>

theorem Fifo_push_full_pull_empty:
  assumes "Fifo_ok f"
  shows "(getFreeSpace (fifo f) = 0 \<longrightarrow> push f t = Inr (False, f))
       \<and> (getNumAvailableForReading f = 0 \<longrightarrow> pull f u = Inr (False, f, u))
       \<and> (\<forall>ts oks f'. f = Fifo_new t0 \<and> length ts \<ge> nat Capacity - 1
              \<and> push_all f ts = Inr (oks, f') \<longrightarrow> push f' t = Inr (False, f'))"
proof (intro conjI impI allI)
  assume "getFreeSpace (fifo f) = 0"
  then show "push f t = Inr (False, f)" using assms by (rule push_full[rotated])
next
  assume "getNumAvailableForReading f = 0"
  then show "pull f u = Inr (False, f, u)" using assms by (rule pull_empty[rotated])
next
  fix ts oks f'
  assume a: "f = Fifo_new t0 \<and> length ts \<ge> nat Capacity - 1 \<and> push_all f ts = Inr (oks, f')"
  have "getFreeSpace (fifo f) = Capacity - 1" using a
    by (simp add: Fifo_new_def AbstractFifo_new_def getFreeSpace_def getNumReady_def)
  moreover have "int (length ts) \<ge> Capacity - 1" using a by (simp add: Capacity_def)
  moreover have "push_all f ts = Inr (oks, f')" using a by blast
  ultimately have "Fifo_ok f' \<and> getFreeSpace (fifo f') = 0"
    using push_all_full[OF assms, of ts oks f'] by simp
  then show "push f' t = Inr (False, f')" by (simp add: push_full)
qed

theorem Fifo_push_full_pull_empty_witness:
  "Fifo_ok full_example \<and> getFreeSpace (fifo full_example) = 0
   \<and> push full_example [[1]] = Inr (False, full_example)
   \<and> getNumAvailableForReading (Fifo_new [[0::real]]) = 0
   \<and> pull (Fifo_new [[0::real]]) [[1]] = Inr (False, Fifo_new [[0]], [[1]])
   \<and> (\<exists>oks f'. push_all (Fifo_new [[0::real]]) (replicate 30 [[1]]) = Inr (oks, f')
          \<and> push f' [[2]] = Inr (False, f'))"
proof -
  obtain oks f' where
    a: "push_all (Fifo_new [[0::real]]) (replicate 30 [[1]]) = Inr (oks, f')"
    using push_all_ok[OF Fifo_new_ok, of "[[0::real]]" "replicate 30 [[1]]"] by blast
  have b: "push f' [[2]] = Inr (False, f')"
  proof -
    note t = Fifo_push_full_pull_empty[OF Fifo_new_ok, of "[[0::real]]" "[[2]]" "[[1]]" "[[0]]"]
    have "nat Capacity - 1 \<le> length (replicate 30 [[1::real]])" by (simp add: Capacity_def)
    with t a show ?thesis by blast
  qed
  have ok: "Fifo_ok full_example"
    by (simp add: full_example_def Fifo_ok_def AbstractFifo_ok_def)
  have fr: "getFreeSpace (fifo full_example) = 0"
    by (simp add: full_example_def getFreeSpace_def getNumReady_def)
  have e: "getNumAvailableForReading (Fifo_new [[0::real]]) = 0"
    by (simp add: Fifo_new_def AbstractFifo_new_def getNumAvailableForReading_def getNumReady_def)
  have "push full_example [[1]] = Inr (False, full_example)"
    "pull (Fifo_new [[0::real]]) [[1]] = Inr (False, Fifo_new [[0]], [[1]])"
    using Fifo_push_full_pull_empty[OF ok, of "[[1]]"]
      Fifo_push_full_pull_empty[OF Fifo_new_ok, of "[[0::real]]" _ "[[1::real]]"] ok fr e
    by simp_all
  then show ?thesis using ok fr e a b by blast
qed

subsection \<open>\<^verbatim>\<open>SingleChannelSampleFifo\<close>\<close>

lemma setSample_single:
  "k < length ys \<Longrightarrow> setSample [ys] 0 (int k) x = Inr [ys[k := x]]"
  by (simp add: setSample_def getNumChannels_def)

lemma pushNextSample_no_push:
  assumes "bufferToFill s = [ys]" "fifoIndex s = int k" "k < length ys"
  shows "pushNextSampleIntoFifo s x = Inr (s\<lparr>bufferToFill := [ys[k := x]], fifoIndex := int k + 1\<rparr>)"
  using assms
  by (simp add: pushNextSampleIntoFifo_def getNumSamples_def setSample_single)

lemma pushSamples_fill:
  assumes "bufferToFill s = [ys]" "fifoIndex s = int k" "k + length xs \<le> length ys"
  shows "pushSamples s xs =
           Inr (s\<lparr>bufferToFill := [take k ys @ xs @ drop (k + length xs) ys],
                  fifoIndex := int (k + length xs)\<rparr>)"
  using assms
proof (induction xs arbitrary: s ys k)
  case Nil
  then show ?case by simp
next
  case (Cons x xs)
  let ?s' = "s\<lparr>bufferToFill := [ys[k := x]], fifoIndex := int k + 1\<rparr>"
  have k: "k < length ys" using Cons.prems(3) by simp
  have step: "pushNextSampleIntoFifo s x = Inr ?s'"
    using pushNextSample_no_push[OF Cons.prems(1,2) k] .
  have "pushSamples ?s' xs =
          Inr (?s'\<lparr>bufferToFill := [take (Suc k) (ys[k := x]) @ xs @ drop (Suc k + length xs) (ys[k := x])],
                    fifoIndex := int (Suc k + length xs)\<rparr>)"
    using Cons.prems(3) by (intro Cons.IH) simp_all
  moreover have "take (Suc k) (ys[k := x]) = take k ys @ [x]"
    using k by (simp add: take_Suc_conv_app_nth)
  ultimately show ?case using step by simp
qed

lemma pushNextSample_push:
  assumes "bufferToFill s = [ys]" "fifoIndex s = int (length ys)" "0 < length ys"
    "push (audioBufferFifo s) [ys] = Inr (ok, f')"
  shows "pushNextSampleIntoFifo s x =
           Inr (s\<lparr>audioBufferFifo := f', bufferToFill := [ys[0 := x]], fifoIndex := 1\<rparr>)"
  using assms setSample_single[of 0 ys x]
  by (simp add: pushNextSampleIntoFifo_def getNumSamples_def)

lemma pushSamples_append:
  "pushSamples s (xs @ zs) = bind_r (pushSamples s xs) (\<lambda>s'. pushSamples s' zs)"
proof (induction xs arbitrary: s)
  case Nil
  then show ?case by simp
next
  case (Cons x xs)
  then show ?case by (cases "pushNextSampleIntoFifo s x") simp_all
qed

text \<open>
  C5, as the code has it. \<^verbatim>\<open>pushNextSampleIntoFifo\<close> tests the cursor before it writes
  the sample. From cursor 0 and block size \<open>B > 0\<close>, feeding exactly \<open>B\<close> samples fills
  the block and pushes nothing: the \<^verbatim>\<open>Fifo\<close> is untouched and the cursor is \<open>B\<close>. The
  block is pushed when the next sample arrives: feeding \<open>B + 1\<close> samples performs exactly
  one \<^verbatim>\<open>push\<close>, of the block holding the first \<open>B\<close> samples; the cursor is reset to 0 at
  that push, the new sample is stored at position 0, and the cursor is 1 afterwards.
\<close>

theorem update_block_pushed_on_next_sample:
  assumes "prepared s" "fifoIndex s = 0" "bufferToFill s = [ys]" "0 < length ys"
    and "Channel_int (channelToUse s) < getNumChannels buffer"
    and "Channel_int (channelToUse s) < getNumChannels buffer'"
    and "buffer ! nat (Channel_int (channelToUse s)) = xs" "length xs = length ys"
    and "buffer' ! nat (Channel_int (channelToUse s)) = xs @ [x]"
    and "push (audioBufferFifo s) [xs] = Inr (ok, f')"
  shows "update_fifo s buffer = Inr (s\<lparr>bufferToFill := [xs], fifoIndex := int (length ys)\<rparr>)
       \<and> update_fifo s buffer' =
           Inr (s\<lparr>audioBufferFifo := f', bufferToFill := [xs[0 := x]], fifoIndex := 1\<rparr>)"
proof -
  let ?s1 = "s\<lparr>bufferToFill := [xs], fifoIndex := int (length ys)\<rparr>"
  have ch: "0 \<le> Channel_int (channelToUse s)" by (cases "channelToUse s") simp_all
  have fill: "pushSamples s xs = Inr ?s1"
    using pushSamples_fill[of s ys 0 xs] assms(2,3,8) by simp
  have one: "update_fifo s buffer = Inr ?s1"
    using assms(1,5,7) ch fill by (simp add: update_fifo_def getReadPointer_def)
  have "pushNextSampleIntoFifo ?s1 x =
          Inr (?s1\<lparr>audioBufferFifo := f', bufferToFill := [xs[0 := x]], fifoIndex := 1\<rparr>)"
    using assms(4,8,10) by (intro pushNextSample_push) simp_all
  then have "pushSamples s (xs @ [x]) =
          Inr (s\<lparr>audioBufferFifo := f', bufferToFill := [xs[0 := x]], fifoIndex := 1\<rparr>)"
    using fill by (simp add: pushSamples_append)
  then have two: "update_fifo s buffer' =
          Inr (s\<lparr>audioBufferFifo := f', bufferToFill := [xs[0 := x]], fifoIndex := 1\<rparr>)"
    using assms(1,6,9) ch by (simp add: update_fifo_def getReadPointer_def)
  show ?thesis using one two by simp
qed

text \<open>
  C5 as stated fails: a sample fifo prepared for blocks of 2 samples that is fed exactly
  2 samples has pushed no block (none is available for reading) and its cursor is 2.
\<close>

theorem update_exact_block_counterexample:
  "bind_r (prepare (SingleChannelSampleFifo_new Right) 2) (\<lambda>s.
     bind_r (update_fifo s [[1, 2]]) (\<lambda>s'.
       Inr (getNumCompleteBuffersAvailable s', fifoIndex s'))) = Inr (0, 2)"
  by (simp add: prepare_def SingleChannelSampleFifo_new_def setSize_def Fifo_prepared_def
      Fifo_new_def AbstractFifo_new_def update_fifo_def getNumChannels_def getReadPointer_def
      pushNextSampleIntoFifo_def getNumSamples_def setSample_def
      getNumCompleteBuffersAvailable_def getNumAvailableForReading_def getNumReady_def)

theorem update_block_pushed_on_next_sample_witness:
  "update_fifo collector_example [[1, 2]] =
     Inr (collector_example\<lparr>bufferToFill := [[1, 2]], fifoIndex := 2\<rparr>)
   \<and> update_fifo collector_example [[1, 2, 3]] =
     Inr (collector_example\<lparr>
            audioBufferFifo := \<lparr>buffers = (replicate 30 [[0, 0]])[0 := [[1, 2]]],
                                 fifo = \<lparr>bufferSize = 30, validStart = 0, validEnd = 1\<rparr>\<rparr>,
            bufferToFill := [[3, 2]], fifoIndex := 1\<rparr>)"
proof -
  have p: "push (audioBufferFifo collector_example) [[1, 2]] =
      Inr (True, \<lparr>buffers = (replicate 30 [[0, 0]])[0 := [[1, 2]]],
                   fifo = \<lparr>bufferSize = 30, validStart = 0, validEnd = 1\<rparr>\<rparr>)"
    by (simp add: collector_example_def push_def Fifo_new_def AbstractFifo_new_def Capacity_def
        prepareToWrite_def finishedWrite_def)
  have "prepared collector_example" "fifoIndex collector_example = 0"
    "bufferToFill collector_example = [[0, 0]]" "channelToUse collector_example = Right"
    by (simp_all add: collector_example_def)
  then show ?thesis
    using update_block_pushed_on_next_sample[of collector_example "[0, 0]" "[[1, 2]]"
        "[[1, 2, 3]]" "[1, 2]" 3, OF _ _ _ _ _ _ _ _ _ p]
    by (simp add: getNumChannels_def)
qed

subsection \<open>Coefficient objects and the cut filter cascade\<close>

lemma succeeds_Inr [simp]: "succeeds (Inr x)" and succeeds_Inl [simp]: "\<not> succeeds (Inl e)"
  by (simp_all add: succeeds_def)

lemma succeeds_iff: "succeeds r \<longleftrightarrow> (\<exists>x. r = Inr x)"
  by (cases r) simp_all

lemma succeeds_deref:
  "succeeds (deref h p) \<longleftrightarrow> (\<exists>a. p = Some a \<and> a < length h)"
  by (cases p) (simp_all add: deref_def)

lemma StageIndex_all: "(\<forall>k. P k) \<longleftrightarrow> P Stage0 \<and> P Stage1 \<and> P Stage2 \<and> P Stage3"
  by (metis StageIndex.exhaust)

lemma updateCoefficients_Inr:
  "updateCoefficients h old replacements = Inr h' \<longleftrightarrow>
     (\<exists>a b. old = Some a \<and> replacements = Some b \<and> a < length h \<and> b < length h
            \<and> h' = h[a := h ! b])"
  by (cases old; cases replacements) (auto simp: updateCoefficients_def deref_def)

lemma update_Inr:
  "update k h chain coeffs = Inr (h', chain') \<longleftrightarrow>
     (updateCoefficients h (coefficients (stage chain k)) (array_at coeffs (StageIndex_nat k)) = Inr h'
      \<and> chain' = setBypassed chain k False)"
  by (auto simp: update_def bind_r_Inr_iff)

lemma update_keeps:
  assumes "update k h chain coeffs = Inr (h', chain')"
  shows "length h' = length h" "stage chain' = stage chain"
    "stageBypassed chain' = (stageBypassed chain)(k := False)"
  using assms by (auto simp: update_Inr updateCoefficients_Inr setBypassed_def)

lemma updateCoefficients_succeeds:
  "succeeds (updateCoefficients h old replacements) \<longleftrightarrow>
     succeeds (deref h old) \<and> succeeds (deref h replacements)"
  by (cases old; cases replacements) (simp_all add: updateCoefficients_def deref_def)

text \<open>
  C2, as the code has it. \<^verbatim>\<open>updateCoefficients (old, replacements)\<close> swaps no reference: it
  overwrites, in place, the coefficient object that \<open>old\<close> points to with the taps of the
  object that \<open>replacements\<close> points to. After the call \<open>old\<close> (which is not reseated) reads
  the replacement's taps, the store has the same objects, and every pointer other than
  \<open>old\<close> reads what it read before. The call returns normally whenever both pointers can
  be dereferenced.
\<close>

theorem updateCoefficients_in_place:
  "(\<forall>h'. updateCoefficients h old replacements = Inr h' \<longrightarrow>
        deref h' old = deref h replacements
      \<and> length h' = length h
      \<and> (\<forall>p. p \<noteq> old \<longrightarrow> deref h' p = deref h p))
   \<and> (succeeds (deref h old) \<and> succeeds (deref h replacements)
        \<longrightarrow> succeeds (updateCoefficients h old replacements))"
proof (intro conjI allI impI)
  fix h' assume a: "updateCoefficients h old replacements = Inr h'"
  then obtain a' b where ab: "old = Some a'" "replacements = Some b" "a' < length h"
    "b < length h" "h' = h[a' := h ! b]"
    by (auto simp: updateCoefficients_Inr)
  show "deref h' old = deref h replacements" using ab by (simp add: deref_def)
  show "length h' = length h" using ab by simp
  fix p assume "p \<noteq> old"
  then show "deref h' p = deref h p" using ab by (cases p) (auto simp: deref_def)
next
  assume "succeeds (deref h old) \<and> succeeds (deref h replacements)"
  then show "succeeds (updateCoefficients h old replacements)"
    by (simp add: updateCoefficients_succeeds)
qed

text \<open>
  C2 as stated fails: with the objects \<open>[1]\<close> at address 0 and \<open>[2]\<close> at address 1, the
  object that \<open>old = 0\<close> points to has the taps \<open>[1]\<close> before the call and \<open>[2]\<close> after it.
\<close>

theorem updateCoefficients_mutates_counterexample:
  "deref [[1], [2]] (Some 0) = Inr [1]
   \<and> updateCoefficients [[1], [2]] (Some 0) (Some 1) = Inr [[2], [2]]"
  by (simp add: updateCoefficients_def deref_def)

theorem updateCoefficients_in_place_witness:
  "updateCoefficients [[1], [2], [3]] (Some 0) (Some 1) = Inr [[2], [2], [3]]
   \<and> deref [[2], [2], [3]] (Some 0) = deref [[1], [2], [3]] (Some 1)
   \<and> deref [[2], [2], [3]] (Some 2) = deref [[1], [2], [3]] (Some 2)
   \<and> succeeds (updateCoefficients [[1], [2], [3]] (Some 0) (Some 1))"
proof -
  have u: "updateCoefficients [[1], [2], [3]] (Some 0) (Some 1) = Inr [[2], [2], [3::real]]"
    by (simp add: updateCoefficients_def deref_def)
  have s: "succeeds (deref [[1], [2], [3::real]] (Some 0))"
    "succeeds (deref [[1], [2], [3::real]] (Some 1))"
    by (simp_all add: deref_def)
  show ?thesis
    using updateCoefficients_in_place[of "[[1], [2], [3]]" "Some 0" "Some 1"] u s
    by simp
qed

lemma case_Slope_12_keeps:
  assumes "case_Slope_12 h chain coeffs = Inr (h', chain')"
  shows "length h' = length h \<and> stage chain' = stage chain
       \<and> stageBypassed chain' = (stageBypassed chain)(Stage0 := False)"
  using update_keeps[of Stage0 h chain coeffs h' chain'] assms
  by (simp add: case_Slope_12_def)

lemma case_Slope_24_keeps:
  assumes "case_Slope_24 h chain coeffs = Inr (h', chain')"
  shows "length h' = length h \<and> stage chain' = stage chain
       \<and> stageBypassed chain' = (stageBypassed chain)(Stage1 := False, Stage0 := False)"
proof -
  from assms obtain h1 chain1 where
    u: "update Stage1 h chain coeffs = Inr (h1, chain1)"
    and r: "case_Slope_12 h1 chain1 coeffs = Inr (h', chain')"
    unfolding case_Slope_24_def bind_r_Inr_iff by (elim exE conjE) (simp split: prod.splits)
  show ?thesis using update_keeps[OF u] case_Slope_12_keeps[OF r] by simp
qed

lemma case_Slope_36_keeps:
  assumes "case_Slope_36 h chain coeffs = Inr (h', chain')"
  shows "length h' = length h \<and> stage chain' = stage chain
       \<and> stageBypassed chain'
           = (stageBypassed chain)(Stage2 := False, Stage1 := False, Stage0 := False)"
proof -
  from assms obtain h1 chain1 where
    u: "update Stage2 h chain coeffs = Inr (h1, chain1)"
    and r: "case_Slope_24 h1 chain1 coeffs = Inr (h', chain')"
    unfolding case_Slope_36_def bind_r_Inr_iff by (elim exE conjE) (simp split: prod.splits)
  show ?thesis using update_keeps[OF u] case_Slope_24_keeps[OF r] by simp
qed

lemma case_Slope_48_keeps:
  assumes "case_Slope_48 h chain coeffs = Inr (h', chain')"
  shows "length h' = length h \<and> stage chain' = stage chain
       \<and> stageBypassed chain'
           = (stageBypassed chain)(Stage3 := False, Stage2 := False, Stage1 := False,
                Stage0 := False)"
proof -
  from assms obtain h1 chain1 where
    u: "update Stage3 h chain coeffs = Inr (h1, chain1)"
    and r: "case_Slope_36 h1 chain1 coeffs = Inr (h', chain')"
    unfolding case_Slope_48_def bind_r_Inr_iff by (elim exE conjE) (simp split: prod.splits)
  show ?thesis using update_keeps[OF u] case_Slope_36_keeps[OF r] by simp
qed

lemma all_bypassed:
  "stageBypassed (setBypassed (setBypassed (setBypassed (setBypassed chain Stage0 True)
      Stage1 True) Stage2 True) Stage3 True) = (\<lambda>k. True)"
proof
  fix k show "stageBypassed (setBypassed (setBypassed (setBypassed (setBypassed chain Stage0 True)
      Stage1 True) Stage2 True) Stage3 True) k = True"
    by (cases k) (simp_all add: setBypassed_def)
qed

lemma updateCutFilter_bypass_flags:
  assumes "updateCutFilter h chain coeffs slope = Inr (h', chain')"
  shows "isBypassed chain' k \<longleftrightarrow> Slope_int slope < int (StageIndex_nat k)"
proof (cases slope)
  case Slope_12
  with assms show ?thesis
    using case_Slope_12_keeps[of h _ coeffs h' chain']
    by (cases k) (simp_all add: updateCutFilter_def Let_def all_bypassed isBypassed_def)
next
  case Slope_24
  with assms show ?thesis
    using case_Slope_24_keeps[of h _ coeffs h' chain']
    by (cases k) (simp_all add: updateCutFilter_def Let_def all_bypassed isBypassed_def)
next
  case Slope_36
  with assms show ?thesis
    using case_Slope_36_keeps[of h _ coeffs h' chain']
    by (cases k) (simp_all add: updateCutFilter_def Let_def all_bypassed isBypassed_def)
next
  case Slope_48
  with assms show ?thesis
    using case_Slope_48_keeps[of h _ coeffs h' chain']
    by (cases k) (simp_all add: updateCutFilter_def Let_def all_bypassed isBypassed_def)
qed

lemma update_succeeds:
  "succeeds (update k h chain coeffs) \<longleftrightarrow>
     succeeds (deref h (coefficients (stage chain k)))
     \<and> succeeds (deref h (array_at coeffs (StageIndex_nat k)))"
proof -
  have "succeeds (update k h chain coeffs) \<longleftrightarrow>
      succeeds (updateCoefficients h (coefficients (stage chain k))
                  (array_at coeffs (StageIndex_nat k)))"
    by (cases "updateCoefficients h (coefficients (stage chain k))
                  (array_at coeffs (StageIndex_nat k))") (simp_all add: update_def)
  then show ?thesis by (simp add: updateCoefficients_succeeds)
qed

lemma deref_succeeds_length:
  "length h' = length h \<Longrightarrow> succeeds (deref h' p) = succeeds (deref h p)"
  by (simp add: succeeds_deref)

text \<open>A stage is ready when its own pointer and its entry of the array can be dereferenced.\<close>

lemma ready_after_update:
  assumes "update j h chain coeffs = Inr (h', chain')"
  shows "succeeds (update k h' chain' coeffs) = succeeds (update k h chain coeffs)"
  using update_keeps[OF assms] by (simp add: update_succeeds succeeds_deref)

lemma case_Slope_12_succeeds:
  "succeeds (update Stage0 h chain coeffs) \<Longrightarrow> succeeds (case_Slope_12 h chain coeffs)"
  by (simp add: case_Slope_12_def)

lemma case_Slope_24_succeeds:
  assumes "succeeds (update Stage1 h chain coeffs)" "succeeds (update Stage0 h chain coeffs)"
  shows "succeeds (case_Slope_24 h chain coeffs)"
proof -
  from assms(1) obtain h1 c1 where u: "update Stage1 h chain coeffs = Inr (h1, c1)"
    by (auto simp: succeeds_iff)
  have "succeeds (update Stage0 h1 c1 coeffs)"
    using assms(2) by (simp add: ready_after_update[OF u])
  then show ?thesis by (simp add: case_Slope_24_def u case_Slope_12_succeeds)
qed

lemma case_Slope_36_succeeds:
  assumes "succeeds (update Stage2 h chain coeffs)" "succeeds (update Stage1 h chain coeffs)"
    "succeeds (update Stage0 h chain coeffs)"
  shows "succeeds (case_Slope_36 h chain coeffs)"
proof -
  from assms(1) obtain h1 c1 where u: "update Stage2 h chain coeffs = Inr (h1, c1)"
    by (auto simp: succeeds_iff)
  have "succeeds (update Stage1 h1 c1 coeffs)" "succeeds (update Stage0 h1 c1 coeffs)"
    using assms(2,3) by (simp_all add: ready_after_update[OF u])
  then show ?thesis by (simp add: case_Slope_36_def u case_Slope_24_succeeds)
qed

lemma case_Slope_48_succeeds:
  assumes "succeeds (update Stage3 h chain coeffs)" "succeeds (update Stage2 h chain coeffs)"
    "succeeds (update Stage1 h chain coeffs)" "succeeds (update Stage0 h chain coeffs)"
  shows "succeeds (case_Slope_48 h chain coeffs)"
proof -
  from assms(1) obtain h1 c1 where u: "update Stage3 h chain coeffs = Inr (h1, c1)"
    by (auto simp: succeeds_iff)
  have "succeeds (update Stage2 h1 c1 coeffs)" "succeeds (update Stage1 h1 c1 coeffs)"
    "succeeds (update Stage0 h1 c1 coeffs)"
    using assms(2,3,4) by (simp_all add: ready_after_update[OF u])
  then show ?thesis by (simp add: case_Slope_48_def u case_Slope_36_succeeds)
qed

lemma update_succeeds_setBypassed:
  "succeeds (update k h (setBypassed chain j b) coeffs) = succeeds (update k h chain coeffs)"
  by (simp add: update_succeeds setBypassed_def)

lemma updateCutFilter_succeeds:
  assumes "\<forall>k. int (StageIndex_nat k) \<le> Slope_int slope \<longrightarrow>
             succeeds (deref h (coefficients (stage chain k)))
           \<and> succeeds (deref h (array_at coeffs (StageIndex_nat k)))"
  shows "succeeds (updateCutFilter h chain coeffs slope)"
proof -
  have r: "\<And>k. int (StageIndex_nat k) \<le> Slope_int slope \<Longrightarrow> succeeds (update k h chain coeffs)"
    using assms by (simp add: update_succeeds)
  show ?thesis
  proof (cases slope)
    case Slope_12
    then show ?thesis using r[of Stage0]
      by (simp add: updateCutFilter_def Let_def case_Slope_12_succeeds update_succeeds_setBypassed)
  next
    case Slope_24
    then show ?thesis using r[of Stage0] r[of Stage1]
      by (simp add: updateCutFilter_def Let_def case_Slope_24_succeeds update_succeeds_setBypassed)
  next
    case Slope_36
    then show ?thesis using r[of Stage0] r[of Stage1] r[of Stage2]
      by (simp add: updateCutFilter_def Let_def case_Slope_36_succeeds update_succeeds_setBypassed)
  next
    case Slope_48
    then show ?thesis using r[of Stage0] r[of Stage1] r[of Stage2] r[of Stage3]
      by (simp add: updateCutFilter_def Let_def case_Slope_48_succeeds update_succeeds_setBypassed)
  qed
qed

text \<open>
  C3. Whatever the store, the chain (with its stale coefficients and old bypass flags)
  and the coefficient array are: when \<^verbatim>\<open>updateCutFilter\<close> returns, stage \<open>k\<close> of the cascade
  is bypassed exactly when \<open>k\<close> is greater than the slope's index, so the stages
  \<open>0..s\<close> are active and the stages \<open>s + 1..3\<close> are bypassed. It returns whenever the pointer
  of every stage \<open>0..s\<close> and the entries \<open>0..s\<close> of the array can be dereferenced.
\<close>

theorem updateCutFilter_bypass_pattern:
  "(\<forall>h' chain'. updateCutFilter h chain coeffs slope = Inr (h', chain') \<longrightarrow>
       (\<forall>k. isBypassed chain' k \<longleftrightarrow> Slope_int slope < int (StageIndex_nat k)))
   \<and> ((\<forall>k. int (StageIndex_nat k) \<le> Slope_int slope \<longrightarrow>
             succeeds (deref h (coefficients (stage chain k)))
           \<and> succeeds (deref h (array_at coeffs (StageIndex_nat k))))
        \<longrightarrow> succeeds (updateCutFilter h chain coeffs slope))"
  using updateCutFilter_bypass_flags updateCutFilter_succeeds by blast

theorem updateCutFilter_bypass_pattern_witness:
  "succeeds (updateCutFilter heap_example (cut_example\<lparr>stageBypassed := (\<lambda>k. k = Stage0)\<rparr>)
               coeffs_example Slope_24)
   \<and> map_sum id (\<lambda>(h', chain'). map (isBypassed chain') [Stage0, Stage1, Stage2, Stage3])
        (updateCutFilter heap_example (cut_example\<lparr>stageBypassed := (\<lambda>k. k = Stage0)\<rparr>)
           coeffs_example Slope_24)
     = Inr [False, False, True, True]"
proof -
  let ?c = "cut_example\<lparr>stageBypassed := (\<lambda>k. k = Stage0)\<rparr>"
  note t = updateCutFilter_bypass_pattern[of heap_example ?c coeffs_example Slope_24]
  have "\<forall>k. int (StageIndex_nat k) \<le> Slope_int Slope_24 \<longrightarrow>
             succeeds (deref heap_example (coefficients (stage ?c k)))
           \<and> succeeds (deref heap_example (array_at coeffs_example (StageIndex_nat k)))"
    by (simp add: StageIndex_all heap_example_def cut_example_def coeffs_example_def deref_def
        array_at_def)
  with t have s: "succeeds (updateCutFilter heap_example ?c coeffs_example Slope_24)" by blast
  then obtain h' chain' where
    r: "updateCutFilter heap_example ?c coeffs_example Slope_24 = Inr (h', chain')"
    by (auto simp: succeeds_iff)
  with t have "\<forall>k. isBypassed chain' k \<longleftrightarrow> Slope_int Slope_24 < int (StageIndex_nat k)"
    by blast
  then show ?thesis using s r by simp
qed

text \<open>
  C4 as stated fails: at \<^verbatim>\<open>Slope_12\<close> stage 1 is bypassed and its coefficient object still
  holds its old taps \<open>[2]\<close>, not the taps \<open>[20]\<close> of entry 1 of the coefficient array.
\<close>

theorem updateCutFilter_stale_stage_counterexample:
  "map_sum id (\<lambda>(h', chain'). (isBypassed chain' Stage1,
                   deref h' (coefficients (stage chain' Stage1)),
                   deref h' (array_at coeffs_example 1)))
     (updateCutFilter heap_example cut_example coeffs_example Slope_12)
   = Inr (True, Inr [2], Inr [20])"
  by (simp add: updateCutFilter_def case_Slope_12_def update_def updateCoefficients_def
      deref_def array_at_def setBypassed_def isBypassed_def heap_example_def cut_example_def
      coeffs_example_def)

lemma designer_lengths:
  "length (snd (makeLowCutFilter L h chainSettings sr))
     = nat (Slope_int (lowCutSlope chainSettings) + 1)"
  "length (snd (makeHighCutFilter L h chainSettings sr))
     = nat (Slope_int (highCutSlope chainSettings) + 1)"
proof -
  show "length (snd (makeLowCutFilter L h chainSettings sr))
     = nat (Slope_int (lowCutSlope chainSettings) + 1)"
    by (cases "lowCutSlope chainSettings")
      (simp_all add: makeLowCutFilter_def alloc_all_def
        designIIRHighpassHighOrderButterworthMethod_def butterworthSections_def)
  show "length (snd (makeHighCutFilter L h chainSettings sr))
     = nat (Slope_int (highCutSlope chainSettings) + 1)"
    by (cases "highCutSlope chainSettings")
      (simp_all add: makeHighCutFilter_def alloc_all_def
        designIIRLowpassHighOrderButterworthMethod_def butterworthSections_def)
qed

text \<open>
  C1, as the code has it. The designers ask the library for a filter of order
  \<open>(slope + 1) * 2\<close>: what they return is the array of the coefficient objects that the
  library's high-order Butterworth designer builds for the cut frequency, the sample rate
  and that order. The array has \<open>slope + 1\<close> coefficient sets, for every cutoff frequency
  and sample rate: one for 12 dB/Oct, four only for 48 dB/Oct.
\<close>

theorem designer_sections_follow_slope:
  "makeLowCutFilter L h chainSettings sr
     = alloc_all h (designIIRHighpassHighOrderButterworthMethod L (lowCutFreq chainSettings) sr
                      ((Slope_int (lowCutSlope chainSettings) + 1) * 2))
   \<and> makeHighCutFilter L h chainSettings sr
     = alloc_all h (designIIRLowpassHighOrderButterworthMethod L (highCutFreq chainSettings) sr
                      ((Slope_int (highCutSlope chainSettings) + 1) * 2))
   \<and> length (snd (makeLowCutFilter L h chainSettings sr))
     = nat (Slope_int (lowCutSlope chainSettings) + 1)
   \<and> length (snd (makeHighCutFilter L h chainSettings sr))
     = nat (Slope_int (highCutSlope chainSettings) + 1)"
  using designer_lengths[of L h chainSettings sr]
  by (simp add: makeLowCutFilter_def makeHighCutFilter_def)

text \<open>C1 as stated fails: at 12 dB/Oct both designers return one coefficient set, not 4.\<close>

theorem designer_one_section_counterexample:
  "length (snd (makeLowCutFilter probe [] settings_example 48000)) = 1
   \<and> length (snd (makeHighCutFilter probe [] settings_example 48000)) = 1"
  by (simp add: makeLowCutFilter_def makeHighCutFilter_def alloc_all_def
      designIIRHighpassHighOrderButterworthMethod_def settings_example_def
      designIIRLowpassHighOrderButterworthMethod_def butterworthSections_def)

text \<open>
  C6, as the code has it. The designers clamp nothing. \<^verbatim>\<open>makePeakFilter\<close> hands the sample
  rate, the peak frequency, the quality and the gain to the library as they are;
  \<^verbatim>\<open>makeLowCutFilter\<close> and \<^verbatim>\<open>makeHighCutFilter\<close> build every section of the cascade from
  the sample rate and the cut frequency as they are.
\<close>

theorem designers_pass_parameters_unchanged:
  "fst (makePeakFilter L h chainSettings sr)
     = h @ [IIR_makePeakFilter L sr (peakFreq chainSettings) (peakQuality chainSettings)
              (decibelsToGain (peakGainInDecibels chainSettings))]
   \<and> fst (makeLowCutFilter L h chainSettings sr)
     = h @ map (\<lambda>i. IIR_makeHighPass L sr (lowCutFreq chainSettings)
                  (1 / (2 * cos ((2 * real i + 1) * pi
                     / (real_of_int ((Slope_int (lowCutSlope chainSettings) + 1) * 2) * 2)))))
             [0..<nat (Slope_int (lowCutSlope chainSettings) + 1)]
   \<and> fst (makeHighCutFilter L h chainSettings sr)
     = h @ map (\<lambda>i. IIR_makeLowPass L sr (highCutFreq chainSettings)
                  (1 / (2 * cos ((2 * real i + 1) * pi
                     / (real_of_int ((Slope_int (highCutSlope chainSettings) + 1) * 2) * 2)))))
             [0..<nat (Slope_int (highCutSlope chainSettings) + 1)]"
  by (simp add: makePeakFilter_def alloc_def makeLowCutFilter_def makeHighCutFilter_def
      alloc_all_def designIIRHighpassHighOrderButterworthMethod_def
      designIIRLowpassHighOrderButterworthMethod_def butterworthSections_def)

text \<open>
  C6 as stated fails: at a sample rate of 32000 Hz and frequencies of 20000 Hz (the top of
  the parameter range, above the Nyquist frequency 16000 Hz) the library is handed the
  frequency 20000 by all three designers.
\<close>

theorem designers_no_clamp_counterexample:
  "fst (makeLowCutFilter probe [] settings_example 32000) = [[32000, 20000]]
   \<and> fst (makeHighCutFilter probe [] settings_example 32000) = [[32000, 20000]]
   \<and> fst (makePeakFilter probe [] settings_example 32000) = [[32000, 20000, 1]]
   \<and> (32000 :: real) / 2 \<le> 20000"
  by (simp add: makePeakFilter_def alloc_def makeLowCutFilter_def makeHighCutFilter_def
      alloc_all_def designIIRHighpassHighOrderButterworthMethod_def
      designIIRLowpassHighOrderButterworthMethod_def butterworthSections_def
      settings_example_def probe_def)

lemma update_effect:
  assumes "update j h chain coeffs = Inr (h1, chain1)"
  shows "stage chain1 = stage chain" "length h1 = length h"
    "deref h1 (coefficients (stage chain j)) = deref h (array_at coeffs (StageIndex_nat j))"
    "\<And>p. p \<noteq> coefficients (stage chain j) \<Longrightarrow> deref h1 p = deref h p"
proof -
  from assms obtain a b where ab: "coefficients (stage chain j) = Some a"
    "array_at coeffs (StageIndex_nat j) = Some b" "a < length h" "b < length h"
    "h1 = h[a := h ! b]" "chain1 = setBypassed chain j False"
    by (auto simp: update_Inr updateCoefficients_Inr)
  show "stage chain1 = stage chain" using ab by (simp add: setBypassed_def)
  show "length h1 = length h" using ab by simp
  show "deref h1 (coefficients (stage chain j)) = deref h (array_at coeffs (StageIndex_nat j))"
    using ab by (simp add: deref_def)
  fix p assume "p \<noteq> coefficients (stage chain j)"
  then show "deref h1 p = deref h p" using ab by (cases p) (auto simp: deref_def)
qed

lemma case_Slope_12_heap:
  assumes "case_Slope_12 h chain coeffs = Inr (h', chain')"
  shows "\<And>p. p \<noteq> coefficients (stage chain Stage0) \<Longrightarrow> deref h' p = deref h p"
    and "deref h' (coefficients (stage chain Stage0)) = deref h (array_at coeffs 0)"
  using update_effect[of Stage0 h chain coeffs h' chain'] assms
  by (simp_all add: case_Slope_12_def)

lemma case_Slope_24_heap:
  assumes "case_Slope_24 h chain coeffs = Inr (h', chain')"
  shows "\<And>p. p \<notin> set (map (\<lambda>k. coefficients (stage chain k)) [Stage0, Stage1])
            \<Longrightarrow> deref h' p = deref h p"
    and "stages_unaliased chain coeffs Slope_24 \<Longrightarrow>
         deref h' (coefficients (stage chain Stage0)) = deref h (array_at coeffs 0)
       \<and> deref h' (coefficients (stage chain Stage1)) = deref h (array_at coeffs 1)"
proof -
  from assms obtain h1 chain1 where
    u: "update Stage1 h chain coeffs = Inr (h1, chain1)"
    and r: "case_Slope_12 h1 chain1 coeffs = Inr (h', chain')"
    unfolding case_Slope_24_def bind_r_Inr_iff by (elim exE conjE) (simp split: prod.splits)
  note e = update_effect[OF u]
  note f = case_Slope_12_heap[OF r, unfolded e(1)]
  show "\<And>p. p \<notin> set (map (\<lambda>k. coefficients (stage chain k)) [Stage0, Stage1])
            \<Longrightarrow> deref h' p = deref h p"
    using e(4) f(1) by simp
  assume "stages_unaliased chain coeffs Slope_24"
  then have d: "coefficients (stage chain Stage0) \<noteq> coefficients (stage chain Stage1)"
    "array_at coeffs 0 \<noteq> coefficients (stage chain Stage1)"
    by (auto simp: stages_unaliased_def active_stages_def)
  show "deref h' (coefficients (stage chain Stage0)) = deref h (array_at coeffs 0)
       \<and> deref h' (coefficients (stage chain Stage1)) = deref h (array_at coeffs 1)"
    using d e(3) e(4) f(1) f(2) by (metis One_nat_def StageIndex_nat.simps(2))
qed

lemma case_Slope_36_heap:
  assumes "case_Slope_36 h chain coeffs = Inr (h', chain')"
  shows "\<And>p. p \<notin> set (map (\<lambda>k. coefficients (stage chain k)) [Stage0, Stage1, Stage2])
            \<Longrightarrow> deref h' p = deref h p"
    and "stages_unaliased chain coeffs Slope_36 \<Longrightarrow>
         deref h' (coefficients (stage chain Stage0)) = deref h (array_at coeffs 0)
       \<and> deref h' (coefficients (stage chain Stage1)) = deref h (array_at coeffs 1)
       \<and> deref h' (coefficients (stage chain Stage2)) = deref h (array_at coeffs 2)"
proof -
  from assms obtain h1 chain1 where
    u: "update Stage2 h chain coeffs = Inr (h1, chain1)"
    and r: "case_Slope_24 h1 chain1 coeffs = Inr (h', chain')"
    unfolding case_Slope_36_def bind_r_Inr_iff by (elim exE conjE) (simp split: prod.splits)
  note e = update_effect[OF u]
  note f = case_Slope_24_heap(1)[OF r, unfolded e(1)]
  show "\<And>p. p \<notin> set (map (\<lambda>k. coefficients (stage chain k)) [Stage0, Stage1, Stage2])
            \<Longrightarrow> deref h' p = deref h p"
    using e(4) f by simp
  assume a: "stages_unaliased chain coeffs Slope_36"
  then have d: "coefficients (stage chain Stage0) \<noteq> coefficients (stage chain Stage2)"
    "coefficients (stage chain Stage1) \<noteq> coefficients (stage chain Stage2)"
    "array_at coeffs 0 \<noteq> coefficients (stage chain Stage2)"
    "array_at coeffs 1 \<noteq> coefficients (stage chain Stage2)"
    by (auto simp: stages_unaliased_def active_stages_def)
  from a have "stages_unaliased chain1 coeffs Slope_24"
    by (auto simp: stages_unaliased_def active_stages_def e(1))
  from case_Slope_24_heap(2)[OF r this, unfolded e(1)]
  have g: "deref h' (coefficients (stage chain Stage0)) = deref h1 (array_at coeffs 0)"
    "deref h' (coefficients (stage chain Stage1)) = deref h1 (array_at coeffs 1)"
    by simp_all
  have "deref h' (coefficients (stage chain Stage2)) = deref h1 (coefficients (stage chain Stage2))"
    using f[of "coefficients (stage chain Stage2)"] d by auto
  then show "deref h' (coefficients (stage chain Stage0)) = deref h (array_at coeffs 0)
       \<and> deref h' (coefficients (stage chain Stage1)) = deref h (array_at coeffs 1)
       \<and> deref h' (coefficients (stage chain Stage2)) = deref h (array_at coeffs 2)"
    using g d e(3) e(4) by simp
qed

lemma case_Slope_48_heap:
  assumes "case_Slope_48 h chain coeffs = Inr (h', chain')"
  shows "\<And>p. p \<notin> set (map (\<lambda>k. coefficients (stage chain k)) [Stage0, Stage1, Stage2, Stage3])
            \<Longrightarrow> deref h' p = deref h p"
    and "stages_unaliased chain coeffs Slope_48 \<Longrightarrow>
         deref h' (coefficients (stage chain Stage0)) = deref h (array_at coeffs 0)
       \<and> deref h' (coefficients (stage chain Stage1)) = deref h (array_at coeffs 1)
       \<and> deref h' (coefficients (stage chain Stage2)) = deref h (array_at coeffs 2)
       \<and> deref h' (coefficients (stage chain Stage3)) = deref h (array_at coeffs 3)"
proof -
  from assms obtain h1 chain1 where
    u: "update Stage3 h chain coeffs = Inr (h1, chain1)"
    and r: "case_Slope_36 h1 chain1 coeffs = Inr (h', chain')"
    unfolding case_Slope_48_def bind_r_Inr_iff by (elim exE conjE) (simp split: prod.splits)
  note e = update_effect[OF u]
  note f = case_Slope_36_heap(1)[OF r, unfolded e(1)]
  show "\<And>p. p \<notin> set (map (\<lambda>k. coefficients (stage chain k)) [Stage0, Stage1, Stage2, Stage3])
            \<Longrightarrow> deref h' p = deref h p"
    using e(4) f by simp
  assume a: "stages_unaliased chain coeffs Slope_48"
  then have d: "coefficients (stage chain Stage0) \<noteq> coefficients (stage chain Stage3)"
    "coefficients (stage chain Stage1) \<noteq> coefficients (stage chain Stage3)"
    "coefficients (stage chain Stage2) \<noteq> coefficients (stage chain Stage3)"
    "array_at coeffs 0 \<noteq> coefficients (stage chain Stage3)"
    "array_at coeffs 1 \<noteq> coefficients (stage chain Stage3)"
    "array_at coeffs 2 \<noteq> coefficients (stage chain Stage3)"
    by (auto simp: stages_unaliased_def active_stages_def)
  from a have "stages_unaliased chain1 coeffs Slope_36"
    by (auto simp: stages_unaliased_def active_stages_def e(1))
  from case_Slope_36_heap(2)[OF r this, unfolded e(1)]
  have g: "deref h' (coefficients (stage chain Stage0)) = deref h1 (array_at coeffs 0)"
    "deref h' (coefficients (stage chain Stage1)) = deref h1 (array_at coeffs 1)"
    "deref h' (coefficients (stage chain Stage2)) = deref h1 (array_at coeffs 2)"
    by simp_all
  have "deref h' (coefficients (stage chain Stage3)) = deref h1 (coefficients (stage chain Stage3))"
    using f[of "coefficients (stage chain Stage3)"] d by auto
  then show "deref h' (coefficients (stage chain Stage0)) = deref h (array_at coeffs 0)
       \<and> deref h' (coefficients (stage chain Stage1)) = deref h (array_at coeffs 1)
       \<and> deref h' (coefficients (stage chain Stage2)) = deref h (array_at coeffs 2)
       \<and> deref h' (coefficients (stage chain Stage3)) = deref h (array_at coeffs 3)"
    using g d e(3) e(4) by simp
qed

lemma stage_setBypassed [simp]: "stage (setBypassed chain k b) = stage chain"
  by (simp add: setBypassed_def)

lemma stages_unaliased_stage:
  "stage c = stage chain \<Longrightarrow> stages_unaliased c coeffs slope = stages_unaliased chain coeffs slope"
  by (simp add: stages_unaliased_def)

lemma updateCutFilter_heap_effect:
  assumes "updateCutFilter h chain coeffs slope = Inr (h', chain')"
  shows "stage chain' = stage chain \<and> length h' = length h
       \<and> (\<forall>p. p \<notin> set (map (\<lambda>k. coefficients (stage chain k)) (active_stages slope))
              \<longrightarrow> deref h' p = deref h p)
       \<and> (stages_unaliased chain coeffs slope \<longrightarrow>
            (\<forall>k \<in> set (active_stages slope).
               deref h' (coefficients (stage chain k))
                 = deref h (array_at coeffs (StageIndex_nat k))))"
proof -
  let ?c = "setBypassed (setBypassed (setBypassed (setBypassed chain Stage0 True)
      Stage1 True) Stage2 True) Stage3 True"
  have st: "stage ?c = stage chain" by simp
  have un: "stages_unaliased ?c coeffs slope = stages_unaliased chain coeffs slope"
    by (rule stages_unaliased_stage) simp
  show ?thesis
  proof (cases slope)
    case Slope_12
    with assms have r: "case_Slope_12 h ?c coeffs = Inr (h', chain')"
      by (simp add: updateCutFilter_def Let_def)
    show ?thesis
      using case_Slope_12_keeps[OF r] case_Slope_12_heap[OF r] Slope_12
      by (simp add: active_stages_def)
  next
    case Slope_24
    with assms have r: "case_Slope_24 h ?c coeffs = Inr (h', chain')"
      by (simp add: updateCutFilter_def Let_def)
    show ?thesis
      using case_Slope_24_keeps[OF r] case_Slope_24_heap[OF r] Slope_24 un
      by (simp add: active_stages_def)
  next
    case Slope_36
    with assms have r: "case_Slope_36 h ?c coeffs = Inr (h', chain')"
      by (simp add: updateCutFilter_def Let_def)
    show ?thesis
      using case_Slope_36_keeps[OF r] case_Slope_36_heap[OF r] Slope_36 un
      by (simp add: active_stages_def)
  next
    case Slope_48
    with assms have r: "case_Slope_48 h ?c coeffs = Inr (h', chain')"
      by (simp add: updateCutFilter_def Let_def)
    show ?thesis
      using case_Slope_48_keeps[OF r] case_Slope_48_heap[OF r] Slope_48 un
      by (simp add: active_stages_def)
  qed
qed

lemma bypass_all_four:
  "setBypassed (setBypassed (setBypassed (setBypassed chain Stage0 True) Stage1 True)
     Stage2 True) Stage3 True = chain\<lparr>stageBypassed := (\<lambda>k. True)\<rparr>"
proof -
  have "(stageBypassed chain)(Stage0 := True, Stage1 := True, Stage2 := True, Stage3 := True)
      = (\<lambda>k. True)"
  proof
    fix k
    show "((stageBypassed chain)(Stage0 := True, Stage1 := True, Stage2 := True,
             Stage3 := True)) k = True"
      by (cases k) simp_all
  qed
  then show ?thesis by (simp add: setBypassed_def)
qed

lemma updateCutFilter_from_all_bypassed:
  "updateCutFilter h (chain\<lparr>stageBypassed := (\<lambda>k. True)\<rparr>) coeffs slope
     = updateCutFilter h chain coeffs slope"
  by (cases slope) (simp_all add: updateCutFilter_def Let_def bypass_all_four)

lemma active_stages_iff:
  "k \<in> set (active_stages slope) \<longleftrightarrow> int (StageIndex_nat k) \<le> Slope_int slope"
  by (cases slope; cases k) (simp_all add: active_stages_def)

text \<open>
  C4, as the code has it. \<^verbatim>\<open>updateCutFilter\<close> first bypasses all four stages, so the
  flags it finds play no part: it gives the same result from the chain with all four
  flags set. Then, for the stages \<open>slope\<close> down to 0, it copies the entry of the coefficient
  array into the stage's coefficient object and takes the bypass off; afterwards a stage
  is bypassed exactly when it is not one of the stages \<open>0..slope\<close>. No stage pointer is
  reseated and the store keeps its objects; every pointer that is not the pointer of one of
  the stages \<open>0..slope\<close> reads what it read before, so a stage above the slope keeps its
  stale coefficients; and when the objects of the stages \<open>0..slope\<close> are distinct from each
  other and from the array's, each of these stages reads the taps of its array entry
  afterwards.
\<close>

theorem updateCutFilter_sets_active_stages:
  assumes "updateCutFilter h chain coeffs slope = Inr (h', chain')"
  shows "updateCutFilter h (chain\<lparr>stageBypassed := (\<lambda>k. True)\<rparr>) coeffs slope = Inr (h', chain')
       \<and> (\<forall>k. isBypassed chain' k \<longleftrightarrow> k \<notin> set (active_stages slope))
       \<and> stage chain' = stage chain \<and> length h' = length h
       \<and> (\<forall>p. p \<notin> set (map (\<lambda>k. coefficients (stage chain k)) (active_stages slope))
              \<longrightarrow> deref h' p = deref h p)
       \<and> (stages_unaliased chain coeffs slope \<longrightarrow>
            (\<forall>k \<in> set (active_stages slope).
               deref h' (coefficients (stage chain k))
                 = deref h (array_at coeffs (StageIndex_nat k))))"
proof -
  have "updateCutFilter h (chain\<lparr>stageBypassed := (\<lambda>k. True)\<rparr>) coeffs slope = Inr (h', chain')"
    using assms by (simp only: updateCutFilter_from_all_bypassed)
  moreover have "\<forall>k. isBypassed chain' k \<longleftrightarrow> k \<notin> set (active_stages slope)"
    using updateCutFilter_bypass_flags[OF assms] by (auto simp: active_stages_iff)
  ultimately show ?thesis using updateCutFilter_heap_effect[OF assms] by blast
qed

theorem updateCutFilter_sets_active_stages_witness:
  "map_sum id (\<lambda>(h', chain').
       (map (isBypassed chain') [Stage0, Stage1, Stage2, Stage3],
        map (\<lambda>k. deref h' (coefficients (stage chain' k))) [Stage0, Stage1, Stage2, Stage3]))
     (updateCutFilter heap_example cut_example coeffs_example Slope_24)
   = Inr ([False, False, True, True], [Inr [10], Inr [20], Inr [3], Inr [4]])"
proof -
  have "succeeds (updateCutFilter heap_example cut_example coeffs_example Slope_24)"
    by (rule updateCutFilter_succeeds)
      (simp add: StageIndex_all heap_example_def cut_example_def coeffs_example_def deref_def
        array_at_def)
  then obtain h' chain' where
    r: "updateCutFilter heap_example cut_example coeffs_example Slope_24 = Inr (h', chain')"
    by (auto simp: succeeds_iff)
  have u: "stages_unaliased cut_example coeffs_example Slope_24"
    by (simp add: stages_unaliased_def active_stages_def cut_example_def coeffs_example_def
        array_at_def)
  have a: "active_stages Slope_24 = [Stage0, Stage1]"
    by (simp add: active_stages_def)
  note t = updateCutFilter_sets_active_stages[OF r, unfolded a]
  have s: "stage chain' = stage cut_example" using t by simp
  have b: "\<not> isBypassed chain' Stage0" "\<not> isBypassed chain' Stage1"
    "isBypassed chain' Stage2" "isBypassed chain' Stage3"
    using t by simp_all
  have p: "coefficients (stage cut_example Stage0) = Some 0"
    "coefficients (stage cut_example Stage1) = Some 1"
    "coefficients (stage cut_example Stage2) = Some 2"
    "coefficients (stage cut_example Stage3) = Some 3"
    by (simp_all add: cut_example_def)
  have v: "deref heap_example (Some 2) = Inr [3]" "deref heap_example (Some 3) = Inr [4]"
    "deref heap_example (array_at coeffs_example 0) = Inr [10]"
    "deref heap_example (array_at coeffs_example 1) = Inr [20]"
    "deref heap_example (array_at coeffs_example (Suc 0)) = Inr [20]"
    by (simp_all add: heap_example_def coeffs_example_def deref_def array_at_def)
  have "deref h' (Some 2) = deref heap_example (Some 2)"
    "deref h' (Some 3) = deref heap_example (Some 3)"
    using t by (simp_all add: p)
  moreover have "deref h' (Some 0) = deref heap_example (array_at coeffs_example 0)"
    "deref h' (Some 1) = deref heap_example (array_at coeffs_example 1)"
    using t u by (simp_all add: p)
  ultimately show ?thesis
    by (simp add: r s p v b)
qed

subsection \<open>The response curve\<close>

lemma columnMagnitude_bypassed:
  assumes "chainBypassed chain Peak" "\<forall>k. isBypassed (lowCut chain) k"
    "\<forall>k. isBypassed (highCut chain) k"
  shows "columnMagnitude L h chain sr freq = Inr 0"
  using assms by (simp add: columnMagnitude_def multiplyStage_def gainToDecibels_def Let_def)

lemma magnitudes_loop_flat:
  assumes "\<And>freq. columnMagnitude L h chain sr freq = Inr 0"
  shows "magnitudes_loop L h chain sr w is = Inr (replicate (length is) 0)"
  by (induction "is") (simp_all add: assms)

lemma length_columns: "length [0..w - 1] = nat w"
  by simp

lemma columnFrequency_eq:
  "columnFrequency i w = 20 * 1000 powr (real_of_int i / real_of_int w)"
proof -
  let ?x = "real_of_int i / real_of_int w"
  have l: "log 10 20000 - log 10 20 = (3::real)"
  proof -
    have "log 10 20000 - log 10 20 = log 10 (20000 / 20 :: real)"
      using log_divide[of 10 20000 20] by simp
    also have "\<dots> = log 10 (10 powr 3 :: real)" by simp
    also have "\<dots> = 3" by (rule log_powr_cancel) simp_all
    finally show ?thesis .
  qed
  have k: "(1000::real) = 10 powr 3" by simp
  have p: "(10::real) powr (3 * ?x) = 1000 powr ?x"
    by (subst k) (simp only: powr_powr)
  have "columnFrequency i w = 10 powr (?x * 3 + log 10 20)"
    by (simp add: columnFrequency_def mapToLog10_def Let_def l)
  also have "\<dots> = 10 powr (3 * ?x) * 10 powr (log 10 20)"
    by (simp add: powr_add mult.commute)
  also have "\<dots> = 1000 powr ?x * 10 powr (log 10 20)" by (simp only: p)
  also have "\<dots> = 20 * 1000 powr ?x" by simp
  finally show ?thesis .
qed

lemma columnFrequency_range:
  assumes "0 \<le> i" "i < w"
  shows "20 \<le> columnFrequency i w" "columnFrequency i w < 20000"
proof -
  let ?x = "real_of_int i / real_of_int w"
  have x: "0 \<le> ?x" "?x < 1" using assms by simp_all
  have "1 \<le> (1000::real) powr ?x" using x(1) by (simp add: ge_one_powr_ge_zero)
  then show "20 \<le> columnFrequency i w" by (simp add: columnFrequency_eq)
  have "(1000::real) powr ?x < 1000 powr 1" using x(2) by (intro powr_less_mono) simp_all
  then show "columnFrequency i w < 20000" by (simp add: columnFrequency_eq)
qed

text \<open>
  C8. With the peak stage bypassed and all four stages of both cut cascades bypassed,
  the magnitude loop of \<^verbatim>\<open>paint\<close> returns one value per column, \<open>w\<close> in all, and each is
  0 dB: the product stays at the unit gain, whose value in decibels is 0 (exactly so over
  the reals, which stand for the \<^verbatim>\<open>double\<close>s of the code), for every library, store and sample
  rate. Column \<open>i\<close> is sampled at the frequency \<open>20 * 1000 ^ (i / w)\<close>, the log-uniform image of
  \<open>i / w\<close> on the range from 20 Hz to 20000 Hz, which lies in \<open>[20, 20000)\<close>.
\<close>

theorem response_curve_flat_when_bypassed:
  assumes "chainBypassed (monoChain c) Peak"
    and "\<forall>k. isBypassed (lowCut (monoChain c)) k"
    and "\<forall>k. isBypassed (highCut (monoChain c)) k"
  shows "paint_magnitudes L c w = Inr (replicate (nat w) 0)
       \<and> (\<forall>i. 0 \<le> i \<and> i < w \<longrightarrow>
              columnFrequency i w = 20 * 1000 powr (real_of_int i / real_of_int w)
            \<and> 20 \<le> columnFrequency i w \<and> columnFrequency i w < 20000)"
proof -
  have "paint_magnitudes L c w = Inr (replicate (length [0..w - 1]) 0)"
    unfolding paint_magnitudes_def
    by (rule magnitudes_loop_flat) (rule columnMagnitude_bypassed[OF assms])
  then show ?thesis
    using columnFrequency_eq columnFrequency_range by (simp only: length_columns) blast
qed

theorem response_curve_flat_when_bypassed_witness:
  "paint_magnitudes probe (component_example\<lparr>monoChain := bypassed_chain_example\<rparr>) 3
     = Inr [0, 0, 0]
   \<and> columnFrequency 0 3 = 20 \<and> columnFrequency 2 3 < 20000"
proof -
  let ?c = "component_example\<lparr>monoChain := bypassed_chain_example\<rparr>"
  have "chainBypassed (monoChain ?c) Peak" "\<forall>k. isBypassed (lowCut (monoChain ?c)) k"
    "\<forall>k. isBypassed (highCut (monoChain ?c)) k"
    by (simp_all add: bypassed_chain_example_def isBypassed_def)
  from response_curve_flat_when_bypassed[OF this, of probe 3]
  show ?thesis by (simp add: numeral_3_eq_3)
qed

subsection \<open>The timer callback\<close>

lemma pull_ready:
  assumes "Fifo_ok f" "getNumAvailableForReading f > 0"
  shows "pull f t = Inr (True, f\<lparr>fifo := finishedRead (fifo f) 1\<rparr>,
                         buffers f ! nat (validStart (fifo f)))"
  using assms
  by (auto simp: pull_def prepareToRead_def finishedRead_def getNumAvailableForReading_def
      getNumReady_def Fifo_ok_def AbstractFifo_ok_def Let_def min_def split: if_splits)

lemma finishedRead_ok:
  assumes "AbstractFifo_ok a" "getNumReady a > 0"
  shows "AbstractFifo_ok (finishedRead a 1) \<and> getNumReady (finishedRead a 1) = getNumReady a - 1
     \<and> bufferSize (finishedRead a 1) = bufferSize a"
  using assms
  by (auto simp: finishedRead_def getNumReady_def AbstractFifo_ok_def Let_def split: if_splits)

lemma getNumReady_nonneg: "AbstractFifo_ok a \<Longrightarrow> 0 \<le> getNumReady a"
  by (auto simp: getNumReady_def AbstractFifo_ok_def Let_def)

lemma drainFifo_terminates:
  assumes "Fifo_ok (audioBufferFifo s)"
  shows "\<exists>f buf'. drainFifo s buf = Some (Inr (s\<lparr>audioBufferFifo := f\<rparr>, buf'))
           \<and> Fifo_ok f \<and> getNumAvailableForReading f = 0"
  using assms
proof (induction "nat (getNumCompleteBuffersAvailable s)" arbitrary: s buf)
  case 0
  then have "getNumCompleteBuffersAvailable s = 0"
    using getNumReady_nonneg[of "fifo (audioBufferFifo s)"]
    by (simp add: getNumCompleteBuffersAvailable_def getNumAvailableForReading_def Fifo_ok_def)
  then have "drainFifo s buf = Some (Inr (s\<lparr>audioBufferFifo := audioBufferFifo s\<rparr>, buf))"
    by (subst drainFifo.simps) simp
  then show ?case using 0(2) \<open>getNumCompleteBuffersAvailable s = 0\<close>
    by (intro exI[of _ "audioBufferFifo s"] exI[of _ buf])
      (simp add: getNumCompleteBuffersAvailable_def)
next
  case (Suc n)
  let ?f = "audioBufferFifo s"
  have pos: "getNumAvailableForReading ?f > 0"
    using Suc(2) by (simp add: getNumCompleteBuffersAvailable_def)
  let ?f' = "?f\<lparr>fifo := finishedRead (fifo ?f) 1\<rparr>"
  let ?s' = "s\<lparr>audioBufferFifo := ?f'\<rparr>"
  have ok': "Fifo_ok ?f'" and dec: "getNumAvailableForReading ?f' = getNumAvailableForReading ?f - 1"
    using finishedRead_ok[of "fifo ?f"] Suc(3) pos
    by (simp_all add: Fifo_ok_def getNumAvailableForReading_def)
  have g: "getAudioBuffer s buf = Inr (True, ?s', buffers ?f ! nat (validStart (fifo ?f)))"
    by (simp add: getAudioBuffer_def pull_ready[OF Suc(3) pos])
  have n: "n = nat (getNumCompleteBuffersAvailable ?s')"
    using Suc(2) dec by (simp add: getNumCompleteBuffersAvailable_def)
  from Suc(1)[OF n, of "buffers ?f ! nat (validStart (fifo ?f))"] ok'
  obtain f buf' where r: "drainFifo ?s' (buffers ?f ! nat (validStart (fifo ?f)))
       = Some (Inr (?s'\<lparr>audioBufferFifo := f\<rparr>, buf'))" "Fifo_ok f"
       "getNumAvailableForReading f = 0"
    by auto
  have "drainFifo s buf = drainFifo ?s' (buffers ?f ! nat (validStart (fifo ?f)))"
    using pos by (subst drainFifo.simps) (simp add: g getNumCompleteBuffersAvailable_def)
  then show ?case using r by auto
qed

lemma notify_flag_set:
  "foldl (\<lambda>c (i, v). parameterValueChanged c i v) (c\<lparr>parametersChanged := True\<rparr>) events
     = c\<lparr>parametersChanged := True\<rparr>"
  by (induction events) (simp_all add: parameterValueChanged_def split_def)

lemma notify_flag:
  "events \<noteq> [] \<Longrightarrow>
     foldl (\<lambda>c (i, v). parameterValueChanged c i v) c events = c\<lparr>parametersChanged := True\<rparr>"
proof (cases events)
  case Nil
  assume "events \<noteq> []"
  with Nil show ?thesis by simp
next
  case (Cons e es)
  have "foldl (\<lambda>c (i, v). parameterValueChanged c i v) c (e # es)
      = foldl (\<lambda>c (i, v). parameterValueChanged c i v) (c\<lparr>parametersChanged := True\<rparr>) es"
    by (simp add: parameterValueChanged_def split_def)
  then show ?thesis using Cons by (simp only: notify_flag_set)
qed

lemma timerCallback_idle:
  assumes "\<not> parametersChanged c" "timerCallback L c = Some (Inr c')"
  shows "monoChain c' = monoChain c \<and> store (audioProcessor c') = store (audioProcessor c)
       \<and> repaintRequested c' = repaintRequested c \<and> \<not> parametersChanged c'"
  using assms
  by (auto simp: timerCallback_def Let_def split: option.splits sum.splits prod.splits)

lemma updateChain_flag:
  assumes "updateChain L c = Inr c'"
  shows "parametersChanged c' = parametersChanged c"
  using assms
  by (auto simp: updateChain_def Let_def split_def bind_r_Inr_iff)

lemma timerCallback_changed:
  assumes "parametersChanged c" "timerCallback L c = Some (Inr c')"
  shows "\<exists>f buf c2. drainFifo (leftChannelFifo (audioProcessor c)) [] = Some (Inr (f, buf))
          \<and> updateChain L (c\<lparr>audioProcessor := (audioProcessor c)\<lparr>leftChannelFifo := f\<rparr>,
                              parametersChanged := False\<rparr>) = Inr c2
          \<and> c' = c2\<lparr>repaintRequested := True\<rparr> \<and> \<not> parametersChanged c'"
proof -
  from assms obtain f buf where
    d: "drainFifo (leftChannelFifo (audioProcessor c)) [] = Some (Inr (f, buf))"
    by (auto simp: timerCallback_def Let_def split: option.splits sum.splits prod.splits)
  let ?c1 = "c\<lparr>audioProcessor := (audioProcessor c)\<lparr>leftChannelFifo := f\<rparr>,
               parametersChanged := False\<rparr>"
  from assms d obtain c2 where u: "updateChain L ?c1 = Inr c2" "c' = c2\<lparr>repaintRequested := True\<rparr>"
    by (auto simp: timerCallback_def Let_def bind_r_Inr_iff)
  have "\<not> parametersChanged c'" using updateChain_flag[OF u(1)] u(2) by simp
  then show ?thesis using d u by blast
qed

lemma timerCallback_returns:
  assumes "Fifo_ok (audioBufferFifo (leftChannelFifo (audioProcessor c)))"
  shows "timerCallback L c \<noteq> None"
proof -
  from drainFifo_terminates[OF assms, of "[]"] obtain f buf where
    "drainFifo (leftChannelFifo (audioProcessor c)) []
       = Some (Inr ((leftChannelFifo (audioProcessor c))\<lparr>audioBufferFifo := f\<rparr>, buf))"
    by blast
  then show ?thesis by (simp add: timerCallback_def Let_def)
qed

subsection \<open>Well-formed states are kept, and the operations succeed on them\<close>

lemma collector_ok_block:
  "collector_ok s \<longleftrightarrow>
     (\<exists>ys. bufferToFill s = [ys] \<and> 0 < length ys \<and> 0 \<le> fifoIndex s
            \<and> fifoIndex s \<le> int (length ys))
     \<and> Fifo_ok (audioBufferFifo s)"
  by (auto simp: collector_ok_def split: list.splits)

lemma pushNextSample_ok:
  assumes "collector_ok s"
  shows "\<exists>s'. pushNextSampleIntoFifo s x = Inr s' \<and> collector_ok s'
           \<and> prepared s' = prepared s \<and> channelToUse s' = channelToUse s"
proof -
  from assms obtain ys where b: "bufferToFill s = [ys]" "0 < length ys" "0 \<le> fifoIndex s"
    "fifoIndex s \<le> int (length ys)" and f: "Fifo_ok (audioBufferFifo s)"
    by (auto simp: collector_ok_block)
  show ?thesis
  proof (cases "fifoIndex s = int (length ys)")
    case True
    from push_ok[OF f, of "[ys]"] obtain ok f' where
      p: "push (audioBufferFifo s) [ys] = Inr (ok, f')" "Fifo_ok f'" by blast
    have "pushNextSampleIntoFifo s x =
           Inr (s\<lparr>audioBufferFifo := f', bufferToFill := [ys[0 := x]], fifoIndex := 1\<rparr>)"
      using pushNextSample_push[OF b(1) True b(2) p(1)] .
    then show ?thesis using p(2) b(2) by (simp add: collector_ok_block Suc_le_eq)
  next
    case False
    then have k: "fifoIndex s = int (nat (fifoIndex s))" "nat (fifoIndex s) < length ys"
      using b by simp_all
    have "pushNextSampleIntoFifo s x =
           Inr (s\<lparr>bufferToFill := [ys[nat (fifoIndex s) := x]],
                  fifoIndex := int (nat (fifoIndex s)) + 1\<rparr>)"
      using pushNextSample_no_push[OF b(1) k] .
    moreover have "0 \<le> fifoIndex s + 1" "fifoIndex s + 1 \<le> int (length ys)" "ys \<noteq> []"
      using b False by auto
    ultimately show ?thesis using f b(3) by (simp add: collector_ok_block)
  qed
qed

lemma pushSamples_ok:
  assumes "collector_ok s"
  shows "\<exists>s'. pushSamples s xs = Inr s' \<and> collector_ok s'
           \<and> prepared s' = prepared s \<and> channelToUse s' = channelToUse s"
  using assms
proof (induction xs arbitrary: s)
  case Nil
  then show ?case by simp
next
  case (Cons x xs)
  from pushNextSample_ok[OF Cons.prems, of x] obtain s1 where
    s1: "pushNextSampleIntoFifo s x = Inr s1" "collector_ok s1" "prepared s1 = prepared s"
    "channelToUse s1 = channelToUse s" by blast
  from Cons.IH[OF s1(2)] s1 show ?case by auto
qed

lemma update_fifo_ok:
  assumes "collector_ok s" "prepared s" "Channel_int (channelToUse s) < getNumChannels buffer"
  shows "\<exists>s'. update_fifo s buffer = Inr s' \<and> collector_ok s' \<and> prepared s'
           \<and> channelToUse s' = channelToUse s"
proof -
  have "0 \<le> Channel_int (channelToUse s)" by (cases "channelToUse s") simp_all
  then have "update_fifo s buffer = pushSamples s (buffer ! nat (Channel_int (channelToUse s)))"
    using assms(2,3) by (simp add: update_fifo_def getReadPointer_def)
  then show ?thesis
    using pushSamples_ok[OF assms(1), of "buffer ! nat (Channel_int (channelToUse s))"] assms(2)
    by auto
qed

lemma update_fifo_missing_channel:
  assumes "getNumChannels buffer \<le> Channel_int (channelToUse s)"
  shows "\<exists>e. update_fifo s buffer = Inl e"
  using assms by (simp add: update_fifo_def)

lemma deref_mono:
  "succeeds (deref h p) \<Longrightarrow> length h \<le> length h' \<Longrightarrow> succeeds (deref h' p)"
  by (auto simp: succeeds_deref)

lemma cut_valid_iff:
  "cut_valid h chain \<longleftrightarrow> (\<forall>k. succeeds (deref h (coefficients (stage chain k))))"
  by (simp add: cut_valid_def StageIndex_all)

lemma cut_valid_mono:
  "cut_valid h chain \<Longrightarrow> length h \<le> length h' \<Longrightarrow> stage chain' = stage chain
     \<Longrightarrow> cut_valid h' chain'"
  by (auto simp: cut_valid_iff intro: deref_mono)

lemma updateCutFilter_keeps:
  assumes "updateCutFilter h chain coeffs slope = Inr (h', chain')"
  shows "length h' = length h" "stage chain' = stage chain"
proof -
  let ?c = "setBypassed (setBypassed (setBypassed (setBypassed chain Stage0 True)
      Stage1 True) Stage2 True) Stage3 True"
  have "length h' = length h \<and> stage chain' = stage ?c"
  proof (cases slope)
    case Slope_12
    with assms show ?thesis
      using case_Slope_12_keeps[of h ?c coeffs h' chain']
      by (simp add: updateCutFilter_def Let_def)
  next
    case Slope_24
    with assms show ?thesis
      using case_Slope_24_keeps[of h ?c coeffs h' chain']
      by (simp add: updateCutFilter_def Let_def)
  next
    case Slope_36
    with assms show ?thesis
      using case_Slope_36_keeps[of h ?c coeffs h' chain']
      by (simp add: updateCutFilter_def Let_def)
  next
    case Slope_48
    with assms show ?thesis
      using case_Slope_48_keeps[of h ?c coeffs h' chain']
      by (simp add: updateCutFilter_def Let_def)
  qed
  then show "length h' = length h" "stage chain' = stage chain" by simp_all
qed

lemma alloc_all_length:
  "alloc_all h vs = (h1, coeffs) \<Longrightarrow> length h1 = length h + length vs"
  by (auto simp: alloc_all_def)

lemma alloc_all_entries:
  assumes "alloc_all h vs = (h1, coeffs)" "k < length vs"
  shows "succeeds (deref h1 (array_at coeffs k))"
  using assms by (auto simp: alloc_all_def array_at_def deref_def)

lemma StageIndex_nat_le: "int (StageIndex_nat k) \<le> Slope_int slope
    \<Longrightarrow> StageIndex_nat k < nat (Slope_int slope + 1)"
  by (cases k; cases slope) simp_all

lemma makeLowCutFilter_length:
  assumes "makeLowCutFilter L h cs sr = (h1, coeffs)"
  shows "length h \<le> length h1"
  using assms alloc_all_length[of h _ h1 coeffs] by (auto simp: makeLowCutFilter_def)

lemma makeLowCutFilter_entries:
  assumes "makeLowCutFilter L h cs sr = (h1, coeffs)"
    "int (StageIndex_nat k) \<le> Slope_int (lowCutSlope cs)"
  shows "succeeds (deref h1 (array_at coeffs (StageIndex_nat k)))"
proof -
  let ?vs = "designIIRHighpassHighOrderButterworthMethod L (lowCutFreq cs) sr
               ((Slope_int (lowCutSlope cs) + 1) * 2)"
  have a: "alloc_all h ?vs = (h1, coeffs)" using assms(1) by (simp add: makeLowCutFilter_def)
  have n: "length ?vs = nat (Slope_int (lowCutSlope cs) + 1)"
    by (cases "lowCutSlope cs")
      (simp_all add: designIIRHighpassHighOrderButterworthMethod_def butterworthSections_def)
  show ?thesis
    using alloc_all_entries[OF a] StageIndex_nat_le[OF assms(2)] n by simp
qed

lemma makeHighCutFilter_length:
  assumes "makeHighCutFilter L h cs sr = (h1, coeffs)"
  shows "length h \<le> length h1"
  using assms alloc_all_length[of h _ h1 coeffs] by (auto simp: makeHighCutFilter_def)

lemma makeHighCutFilter_entries:
  assumes "makeHighCutFilter L h cs sr = (h1, coeffs)"
    "int (StageIndex_nat k) \<le> Slope_int (highCutSlope cs)"
  shows "succeeds (deref h1 (array_at coeffs (StageIndex_nat k)))"
proof -
  let ?vs = "designIIRLowpassHighOrderButterworthMethod L (highCutFreq cs) sr
               ((Slope_int (highCutSlope cs) + 1) * 2)"
  have a: "alloc_all h ?vs = (h1, coeffs)" using assms(1) by (simp add: makeHighCutFilter_def)
  have n: "length ?vs = nat (Slope_int (highCutSlope cs) + 1)"
    by (cases "highCutSlope cs")
      (simp_all add: designIIRLowpassHighOrderButterworthMethod_def butterworthSections_def)
  show ?thesis
    using alloc_all_entries[OF a] StageIndex_nat_le[OF assms(2)] n by simp
qed

lemma cut_update_ok:
  assumes "cut_valid h chain"
    and "\<forall>k. int (StageIndex_nat k) \<le> Slope_int slope
           \<longrightarrow> succeeds (deref h (array_at coeffs (StageIndex_nat k)))"
  shows "\<exists>h' chain'. updateCutFilter h chain coeffs slope = Inr (h', chain')
           \<and> length h' = length h \<and> stage chain' = stage chain"
proof -
  have "succeeds (updateCutFilter h chain coeffs slope)"
    using assms by (intro updateCutFilter_succeeds) (simp add: cut_valid_iff)
  then obtain h' chain' where r: "updateCutFilter h chain coeffs slope = Inr (h', chain')"
    by (auto simp: succeeds_iff)
  then show ?thesis using updateCutFilter_keeps[OF r] by simp
qed

lemma peak_update_ok:
  assumes "succeeds (deref h old)" "succeeds (deref h new)"
  shows "\<exists>h'. updateCoefficients h old new = Inr h' \<and> length h' = length h"
  using assms by (auto simp: succeeds_deref updateCoefficients_Inr)

lemma chain_valid_mono:
  assumes "chain_valid h c" "length h \<le> length h'"
    "coefficients (peak c') = coefficients (peak c)"
    "stage (lowCut c') = stage (lowCut c)" "stage (highCut c') = stage (highCut c)"
  shows "chain_valid h' c'"
  using assms cut_valid_mono[of h "lowCut c" h' "lowCut c'"]
    cut_valid_mono[of h "highCut c" h' "highCut c'"] deref_mono[of h "coefficients (peak c)" h']
  by (simp add: chain_valid_def)

lemma cut_pair_ok:
  assumes "cut_valid h cl" "cut_valid h cr" "length h \<le> length h1"
    and "\<forall>k. int (StageIndex_nat k) \<le> Slope_int slope
           \<longrightarrow> succeeds (deref h1 (array_at coeffs (StageIndex_nat k)))"
  shows "\<exists>h2 cl' h3 cr'. updateCutFilter h1 cl coeffs slope = Inr (h2, cl')
           \<and> updateCutFilter h2 cr coeffs slope = Inr (h3, cr')
           \<and> length h3 = length h1 \<and> stage cl' = stage cl \<and> stage cr' = stage cr"
proof -
  have "cut_valid h1 cl" by (rule cut_valid_mono[OF assms(1,3)]) simp
  from cut_update_ok[OF this assms(4)] obtain h2 cl' where
    l: "updateCutFilter h1 cl coeffs slope = Inr (h2, cl')" "length h2 = length h1"
    "stage cl' = stage cl" by blast
  have v: "cut_valid h2 cr"
    by (rule cut_valid_mono[OF assms(2)]) (simp_all add: l(2) assms(3))
  have e: "\<forall>k. int (StageIndex_nat k) \<le> Slope_int slope
           \<longrightarrow> succeeds (deref h2 (array_at coeffs (StageIndex_nat k)))"
    using assms(4) l(2) by (simp add: succeeds_deref)
  from cut_update_ok[OF v e] obtain h3 cr' where
    r: "updateCutFilter h2 cr coeffs slope = Inr (h3, cr')" "length h3 = length h2"
    "stage cr' = stage cr" by blast
  show ?thesis using l r by simp
qed

lemma updateLowCutFilters_ok:
  assumes "chain_valid (store p) (leftChain p)" "chain_valid (store p) (rightChain p)"
  shows "\<exists>p'. updateLowCutFilters L p cs = Inr p'
           \<and> chain_valid (store p') (leftChain p') \<and> chain_valid (store p') (rightChain p')
           \<and> leftChannelFifo p' = leftChannelFifo p \<and> rightChannelFifo p' = rightChannelFifo p
           \<and> apvts p' = apvts p \<and> sampleRate p' = sampleRate p"
proof -
  obtain h1 coeffs where m: "makeLowCutFilter L (store p) cs (sampleRate p) = (h1, coeffs)"
    by (cases "makeLowCutFilter L (store p) cs (sampleRate p)")
  note e = makeLowCutFilter_length[OF m] makeLowCutFilter_entries[OF m]
  have "cut_valid (store p) (lowCut (leftChain p))" "cut_valid (store p) (lowCut (rightChain p))"
    using assms by (simp_all add: chain_valid_def)
  note v = this
  have ent: "\<forall>k. int (StageIndex_nat k) \<le> Slope_int (lowCutSlope cs)
           \<longrightarrow> succeeds (deref h1 (array_at coeffs (StageIndex_nat k)))"
    using e(2) by blast
  from cut_pair_ok[OF v e(1) ent] obtain h2 cl' h3 cr' where
    u: "updateCutFilter h1 (lowCut (leftChain p)) coeffs (lowCutSlope cs) = Inr (h2, cl')"
    "updateCutFilter h2 (lowCut (rightChain p)) coeffs (lowCutSlope cs) = Inr (h3, cr')"
    "length h3 = length h1" "stage cl' = stage (lowCut (leftChain p))"
    "stage cr' = stage (lowCut (rightChain p))" by auto
  let ?p' = "p\<lparr>store := h3, leftChain := (leftChain p)\<lparr>lowCut := cl'\<rparr>,
                rightChain := (rightChain p)\<lparr>lowCut := cr'\<rparr>\<rparr>"
  have r: "updateLowCutFilters L p cs = Inr ?p'"
    by (simp add: updateLowCutFilters_def m u)
  have len: "length (store p) \<le> length h3" using e(1) u(3) by simp
  have "chain_valid h3 ((leftChain p)\<lparr>lowCut := cl'\<rparr>)"
    by (rule chain_valid_mono[OF assms(1) len]) (simp_all add: u(4))
  moreover have "chain_valid h3 ((rightChain p)\<lparr>lowCut := cr'\<rparr>)"
    by (rule chain_valid_mono[OF assms(2) len]) (simp_all add: u(5))
  ultimately show ?thesis using r by simp
qed

lemma updateHighCutFilters_ok:
  assumes "chain_valid (store p) (leftChain p)" "chain_valid (store p) (rightChain p)"
  shows "\<exists>p'. updateHighCutFilters L p cs = Inr p'
           \<and> chain_valid (store p') (leftChain p') \<and> chain_valid (store p') (rightChain p')
           \<and> leftChannelFifo p' = leftChannelFifo p \<and> rightChannelFifo p' = rightChannelFifo p
           \<and> apvts p' = apvts p \<and> sampleRate p' = sampleRate p"
proof -
  obtain h1 coeffs where m: "makeHighCutFilter L (store p) cs (sampleRate p) = (h1, coeffs)"
    by (cases "makeHighCutFilter L (store p) cs (sampleRate p)")
  note e = makeHighCutFilter_length[OF m] makeHighCutFilter_entries[OF m]
  have "cut_valid (store p) (highCut (leftChain p))" "cut_valid (store p) (highCut (rightChain p))"
    using assms by (simp_all add: chain_valid_def)
  note v = this
  have ent: "\<forall>k. int (StageIndex_nat k) \<le> Slope_int (highCutSlope cs)
           \<longrightarrow> succeeds (deref h1 (array_at coeffs (StageIndex_nat k)))"
    using e(2) by blast
  from cut_pair_ok[OF v e(1) ent] obtain h2 cl' h3 cr' where
    u: "updateCutFilter h1 (highCut (leftChain p)) coeffs (highCutSlope cs) = Inr (h2, cl')"
    "updateCutFilter h2 (highCut (rightChain p)) coeffs (highCutSlope cs) = Inr (h3, cr')"
    "length h3 = length h1" "stage cl' = stage (highCut (leftChain p))"
    "stage cr' = stage (highCut (rightChain p))" by auto
  let ?p' = "p\<lparr>store := h3, leftChain := (leftChain p)\<lparr>highCut := cl'\<rparr>,
                rightChain := (rightChain p)\<lparr>highCut := cr'\<rparr>\<rparr>"
  have r: "updateHighCutFilters L p cs = Inr ?p'"
    by (simp add: updateHighCutFilters_def m u)
  have len: "length (store p) \<le> length h3" using e(1) u(3) by simp
  have "chain_valid h3 ((leftChain p)\<lparr>highCut := cl'\<rparr>)"
    by (rule chain_valid_mono[OF assms(1) len]) (simp_all add: u(4))
  moreover have "chain_valid h3 ((rightChain p)\<lparr>highCut := cr'\<rparr>)"
    by (rule chain_valid_mono[OF assms(2) len]) (simp_all add: u(5))
  ultimately show ?thesis using r by simp
qed

lemma updatePeakFilter_ok:
  assumes "chain_valid (store p) (leftChain p)" "chain_valid (store p) (rightChain p)"
  shows "\<exists>p'. updatePeakFilter L p cs = Inr p'
           \<and> chain_valid (store p') (leftChain p') \<and> chain_valid (store p') (rightChain p')
           \<and> leftChannelFifo p' = leftChannelFifo p \<and> rightChannelFifo p' = rightChannelFifo p
           \<and> apvts p' = apvts p \<and> sampleRate p' = sampleRate p"
proof -
  obtain h1 pc where m: "makePeakFilter L (store p) cs (sampleRate p) = (h1, pc)"
    by (cases "makePeakFilter L (store p) cs (sampleRate p)")
  then have h1: "length h1 = Suc (length (store p))" "succeeds (deref h1 pc)"
    by (auto simp: makePeakFilter_def alloc_def deref_def)
  have l: "succeeds (deref h1 (coefficients (peak (leftChain p))))"
    by (rule deref_mono[of "store p"]) (use assms(1) h1(1) in \<open>simp_all add: chain_valid_def\<close>)
  from peak_update_ok[OF l h1(2)] obtain h2 where
    u2: "updateCoefficients h1 (coefficients (peak (leftChain p))) pc = Inr h2"
    "length h2 = length h1" by blast
  have "succeeds (deref h2 (coefficients (peak (rightChain p))))" "succeeds (deref h2 pc)"
    using assms(2) h1 u2(2) deref_mono[of "store p" "coefficients (peak (rightChain p))" h2]
      deref_mono[of h1 pc h2]
    by (simp_all add: chain_valid_def)
  from peak_update_ok[OF this] obtain h3 where
    u3: "updateCoefficients h2 (coefficients (peak (rightChain p))) pc = Inr h3"
    "length h3 = length h2" by blast
  have r: "updatePeakFilter L p cs = Inr (p\<lparr>store := h3\<rparr>)"
    by (simp add: updatePeakFilter_def m u2 u3)
  have len: "length (store p) \<le> length h3" using h1(1) u2(2) u3(2) by simp
  have "chain_valid h3 (leftChain p)" "chain_valid h3 (rightChain p)"
    using chain_valid_mono[OF assms(1) len] chain_valid_mono[OF assms(2) len] by simp_all
  then show ?thesis using r by simp
qed

lemma updateFilters_ok:
  assumes "succeeds (getChainSettings (apvts p))"
    and "chain_valid (store p) (leftChain p)" "chain_valid (store p) (rightChain p)"
  shows "\<exists>p'. updateFilters L p = Inr p'
           \<and> chain_valid (store p') (leftChain p') \<and> chain_valid (store p') (rightChain p')
           \<and> leftChannelFifo p' = leftChannelFifo p \<and> rightChannelFifo p' = rightChannelFifo p
           \<and> apvts p' = apvts p \<and> sampleRate p' = sampleRate p"
proof -
  from assms(1) obtain cs where cs: "getChainSettings (apvts p) = Inr cs"
    by (auto simp: succeeds_iff)
  from updateLowCutFilters_ok[OF assms(2,3), of L cs] obtain p1 where
    p1: "updateLowCutFilters L p cs = Inr p1" "chain_valid (store p1) (leftChain p1)"
    "chain_valid (store p1) (rightChain p1)"
    "leftChannelFifo p1 = leftChannelFifo p" "rightChannelFifo p1 = rightChannelFifo p"
    "apvts p1 = apvts p" "sampleRate p1 = sampleRate p"
    by blast
  from updatePeakFilter_ok[OF p1(2,3), of L cs] obtain p2 where
    p2: "updatePeakFilter L p1 cs = Inr p2" "chain_valid (store p2) (leftChain p2)"
    "chain_valid (store p2) (rightChain p2)"
    "leftChannelFifo p2 = leftChannelFifo p1" "rightChannelFifo p2 = rightChannelFifo p1"
    "apvts p2 = apvts p1" "sampleRate p2 = sampleRate p1"
    by blast
  from updateHighCutFilters_ok[OF p2(2,3), of L cs] obtain p3 where
    p3: "updateHighCutFilters L p2 cs = Inr p3" "chain_valid (store p3) (leftChain p3)"
    "chain_valid (store p3) (rightChain p3)"
    "leftChannelFifo p3 = leftChannelFifo p2" "rightChannelFifo p3 = rightChannelFifo p2"
    "apvts p3 = apvts p2" "sampleRate p3 = sampleRate p2"
    by blast
  have "updateFilters L p = Inr p3" by (simp add: updateFilters_def cs p1(1) p2(1) p3(1))
  then show ?thesis using p1 p2 p3 by simp
qed

lemma updateChain_ok:
  assumes "succeeds (getChainSettings (apvts (audioProcessor c)))"
    and "chain_valid (store (audioProcessor c)) (monoChain c)"
  shows "\<exists>c'. updateChain L c = Inr c'
           \<and> chain_valid (store (audioProcessor c')) (monoChain c')
           \<and> parametersChanged c' = parametersChanged c
           \<and> repaintRequested c' = repaintRequested c"
proof -
  let ?p = "audioProcessor c"
  let ?h = "store ?p"
  from assms(1) obtain cs where cs: "getChainSettings (apvts ?p) = Inr cs"
    by (auto simp: succeeds_iff)
  obtain h1 pc where m1: "makePeakFilter L ?h cs (sampleRate ?p) = (h1, pc)"
    by (cases "makePeakFilter L ?h cs (sampleRate ?p)")
  then have h1: "length h1 = Suc (length ?h)" "succeeds (deref h1 pc)"
    by (auto simp: makePeakFilter_def alloc_def deref_def)
  have "succeeds (deref h1 (coefficients (peak (monoChain c))))"
    by (rule deref_mono[of ?h]) (use assms(2) h1(1) in \<open>simp_all add: chain_valid_def\<close>)
  from peak_update_ok[OF this h1(2)] obtain h2 where
    u2: "updateCoefficients h1 (coefficients (peak (monoChain c))) pc = Inr h2"
    "length h2 = length h1" by blast
  obtain h3 lc where m3: "makeLowCutFilter L h2 cs (sampleRate ?p) = (h3, lc)"
    by (cases "makeLowCutFilter L h2 cs (sampleRate ?p)")
  obtain h4 hc where m4: "makeHighCutFilter L h3 cs (sampleRate ?p) = (h4, hc)"
    by (cases "makeHighCutFilter L h3 cs (sampleRate ?p)")
  note l3 = makeLowCutFilter_length[OF m3] and l4 = makeHighCutFilter_length[OF m4]
  have len4: "length ?h \<le> length h4" using h1(1) u2(2) l3 l4 by simp
  have cv: "cut_valid ?h (lowCut (monoChain c))" "cut_valid ?h (highCut (monoChain c))"
    using assms(2) by (simp_all add: chain_valid_def)
  have v4: "cut_valid h4 (lowCut (monoChain c))"
    by (rule cut_valid_mono[OF cv(1) len4]) simp
  have e4: "\<forall>k. int (StageIndex_nat k) \<le> Slope_int (lowCutSlope cs)
           \<longrightarrow> succeeds (deref h4 (array_at lc (StageIndex_nat k)))"
    using makeLowCutFilter_entries[OF m3] l4 deref_mono[of h3 _ h4] by blast
  from cut_update_ok[OF v4 e4] obtain h5 lowCut' where
    u5: "updateCutFilter h4 (lowCut (monoChain c)) lc (lowCutSlope cs) = Inr (h5, lowCut')"
    "length h5 = length h4" "stage lowCut' = stage (lowCut (monoChain c))" by auto
  have v5: "cut_valid h5 (highCut (monoChain c))"
    by (rule cut_valid_mono[OF cv(2)]) (simp_all add: u5(2) len4)
  have e5: "\<forall>k. int (StageIndex_nat k) \<le> Slope_int (highCutSlope cs)
           \<longrightarrow> succeeds (deref h5 (array_at hc (StageIndex_nat k)))"
    using makeHighCutFilter_entries[OF m4] u5(2) by (simp add: succeeds_deref)
  from cut_update_ok[OF v5 e5] obtain h6 highCut' where
    u6: "updateCutFilter h5 (highCut (monoChain c)) hc (highCutSlope cs) = Inr (h6, highCut')"
    "length h6 = length h5" "stage highCut' = stage (highCut (monoChain c))" by auto
  let ?c' = "c\<lparr>audioProcessor := ?p\<lparr>store := h6\<rparr>,
               monoChain := (monoChain c)\<lparr>lowCut := lowCut', highCut := highCut'\<rparr>\<rparr>"
  have r: "updateChain L c = Inr ?c'"
    by (simp add: updateChain_def Let_def cs m1 u2 m3 m4 u5 u6)
  have len6: "length ?h \<le> length h6" using len4 u5(2) u6(2) by simp
  have "chain_valid h6 ((monoChain c)\<lparr>lowCut := lowCut', highCut := highCut'\<rparr>)"
    by (rule chain_valid_mono[OF assms(2) len6]) (simp_all add: u5(3) u6(3))
  then show ?thesis using r by simp
qed

lemma timerCallback_succeeds:
  assumes "Fifo_ok (audioBufferFifo (leftChannelFifo (audioProcessor c)))"
    and "succeeds (getChainSettings (apvts (audioProcessor c)))"
    and "chain_valid (store (audioProcessor c)) (monoChain c)"
  shows "\<exists>c'. timerCallback L c = Some (Inr c')"
proof -
  from drainFifo_terminates[OF assms(1), of "[]"] obtain f buf where
    d: "drainFifo (leftChannelFifo (audioProcessor c)) []
       = Some (Inr ((leftChannelFifo (audioProcessor c))\<lparr>audioBufferFifo := f\<rparr>, buf))"
    by blast
  let ?c1 = "c\<lparr>audioProcessor := (audioProcessor c)\<lparr>leftChannelFifo :=
                (leftChannelFifo (audioProcessor c))\<lparr>audioBufferFifo := f\<rparr>\<rparr>\<rparr>"
  show ?thesis
  proof (cases "parametersChanged c")
    case False
    then show ?thesis by (simp add: timerCallback_def d Let_def)
  next
    case True
    have "\<exists>c2. updateChain L (?c1\<lparr>parametersChanged := False\<rparr>) = Inr c2
           \<and> chain_valid (store (audioProcessor c2)) (monoChain c2)
           \<and> parametersChanged c2 = parametersChanged (?c1\<lparr>parametersChanged := False\<rparr>)
           \<and> repaintRequested c2 = repaintRequested (?c1\<lparr>parametersChanged := False\<rparr>)"
      by (rule updateChain_ok) (use assms(2,3) in simp_all)
    then obtain c2 where "updateChain L (?c1\<lparr>parametersChanged := False\<rparr>) = Inr c2" by blast
    then show ?thesis using True by (simp add: timerCallback_def d Let_def)
  qed
qed

lemma timerCallback_burst:
  assumes "events \<noteq> []"
  shows "timerCallback L (foldl (\<lambda>c (i, v). parameterValueChanged c i v) c events)
       = timerCallback L (parameterValueChanged c j u)"
proof -
  have "foldl (\<lambda>c (i, v). parameterValueChanged c i v) c events = c\<lparr>parametersChanged := True\<rparr>"
    by (rule notify_flag[OF assms])
  moreover have "parameterValueChanged c j u = c\<lparr>parametersChanged := True\<rparr>"
    by (simp add: parameterValueChanged_def)
  ultimately show ?thesis by (simp only:)
qed

lemma clear_channels_length:
  "clear_channels b is = Inr b' \<Longrightarrow> length b' = length b"
proof (induction "is" arbitrary: b)
  case Nil
  then show ?case by simp
next
  case (Cons i "is")
  then show ?case
    by (auto simp: bind_r_Inr_iff clear_channel_def getNumChannels_def split: if_splits)
qed

lemma clear_channels_ok:
  assumes "\<forall>i \<in> set is. 0 \<le> i \<and> i < int (length b)"
  shows "\<exists>b'. clear_channels b is = Inr b'"
  using assms
proof (induction "is" arbitrary: b)
  case Nil
  then show ?case by simp
next
  case (Cons i "is")
  let ?b1 = "b[nat i := map (\<lambda>_. 0) (b ! nat i)]"
  have "clear_channel b i = Inr ?b1" using Cons.prems
    by (simp add: clear_channel_def getNumChannels_def)
  moreover have "\<exists>b'. clear_channels ?b1 is = Inr b'"
    using Cons.prems by (intro Cons.IH) simp
  ultimately show ?case by simp
qed

lemma processBlock_Inr_channels:
  assumes "processBlock L p buffer = Inr r"
  shows "2 \<le> length buffer"
proof -
  from assms obtain buffer1 rightBlock where
    c: "clear_channels buffer [totalNumInputChannels p..totalNumOutputChannels p - 1] = Inr buffer1"
    and g: "getSingleChannelBlock buffer1 1 = Inr rightBlock"
    unfolding processBlock_def bind_r_Inr_iff by blast
  from g have "1 < length buffer1" by (simp add: getSingleChannelBlock_def split: if_splits)
  then show ?thesis using clear_channels_length[OF c] by simp
qed

lemma processBlock_too_few_channels:
  assumes "length buffer < 2"
    and "succeeds (clear_channels buffer [totalNumInputChannels p..totalNumOutputChannels p - 1])"
    and "succeeds (updateFilters L p)"
  shows "processBlock L p buffer = Inl ChannelOutOfRange"
proof -
  from assms(2) obtain buffer1 where
    c: "clear_channels buffer [totalNumInputChannels p..totalNumOutputChannels p - 1] = Inr buffer1"
    by (auto simp: succeeds_iff)
  from assms(3) obtain p1 where u: "updateFilters L p = Inr p1" by (auto simp: succeeds_iff)
  have "length buffer1 < 2" using clear_channels_length[OF c] assms(1) by simp
  then have "buffer1 = [] \<or> (\<exists>x. buffer1 = [x])"
    by (cases buffer1; cases "tl buffer1") auto
  then show ?thesis
    by (auto simp: processBlock_def c u getSingleChannelBlock_def)
qed

lemma processBlock_ok:
  assumes "2 \<le> length buffer"
    and "0 \<le> totalNumInputChannels p" "totalNumOutputChannels p \<le> int (length buffer)"
    and "succeeds (getChainSettings (apvts p))"
    and "chain_valid (store p) (leftChain p)" "chain_valid (store p) (rightChain p)"
    and "prepared (leftChannelFifo p)" "collector_ok (leftChannelFifo p)"
    and "prepared (rightChannelFifo p)" "collector_ok (rightChannelFifo p)"
  shows "succeeds (processBlock L p buffer)"
proof -
  have "\<exists>b'. clear_channels buffer [totalNumInputChannels p..totalNumOutputChannels p - 1] = Inr b'"
    using assms(2,3) by (intro clear_channels_ok) auto
  then obtain buffer1 where
    c: "clear_channels buffer [totalNumInputChannels p..totalNumOutputChannels p - 1] = Inr buffer1"
    by blast
  have len1: "length buffer1 = length buffer" using clear_channels_length[OF c] .
  from updateFilters_ok[OF assms(4,5,6), of L] obtain p1 where
    u: "updateFilters L p = Inr p1" "leftChannelFifo p1 = leftChannelFifo p"
    "rightChannelFifo p1 = rightChannelFifo p" by blast
  have g: "getSingleChannelBlock buffer1 0 = Inr (buffer1 ! 0)"
    "getSingleChannelBlock buffer1 1 = Inr (buffer1 ! 1)"
  proof -
    have "0 < length buffer1" "1 < length buffer1" using assms(1) len1 by linarith+
    then show "getSingleChannelBlock buffer1 0 = Inr (buffer1 ! 0)"
      "getSingleChannelBlock buffer1 1 = Inr (buffer1 ! 1)"
      by (simp_all add: getSingleChannelBlock_def)
  qed
  obtain leftChain' leftOut where
    pl: "MonoChain_process L (store p1) (leftChain p1) (buffer1 ! 0) = (leftChain', leftOut)"
    by (cases "MonoChain_process L (store p1) (leftChain p1) (buffer1 ! 0)")
  obtain rightChain' rightOut where
    pr: "MonoChain_process L (store p1) (rightChain p1) (buffer1 ! 1) = (rightChain', rightOut)"
    by (cases "MonoChain_process L (store p1) (rightChain p1) (buffer1 ! 1)")
  let ?b2 = "buffer1[0 := leftOut, 1 := rightOut]"
  have ch: "Channel_int (channelToUse (leftChannelFifo p)) < getNumChannels ?b2"
    "Channel_int (channelToUse (rightChannelFifo p)) < getNumChannels ?b2"
  proof -
    have n2: "getNumChannels ?b2 = int (length buffer)" by (simp add: getNumChannels_def len1)
    have cl: "Channel_int x \<le> 1" for x by (cases x) simp_all
    show "Channel_int (channelToUse (leftChannelFifo p)) < getNumChannels ?b2"
      using assms(1) cl[of "channelToUse (leftChannelFifo p)"] unfolding n2 by linarith
    show "Channel_int (channelToUse (rightChannelFifo p)) < getNumChannels ?b2"
      using assms(1) cl[of "channelToUse (rightChannelFifo p)"] unfolding n2 by linarith
  qed
  from update_fifo_ok[OF assms(8,7) ch(1)] obtain leftFifo where
    fl: "update_fifo (leftChannelFifo p) ?b2 = Inr leftFifo" by blast
  from update_fifo_ok[OF assms(10,9) ch(2)] obtain rightFifo where
    fr: "update_fifo (rightChannelFifo p) ?b2 = Inr rightFifo" by blast
  show ?thesis
    by (simp add: processBlock_def c u g pl pr fl fr Let_def del: One_nat_def)
qed

subsection \<open>Parameter changes and the timer\<close>

text \<open>
  C9. \<^verbatim>\<open>parameterValueChanged\<close> sets the flag \<^verbatim>\<open>parametersChanged\<close> and changes nothing
  else. A timer callback that finds the flag clear leaves the mirror chain, the store of
  coefficient objects, the repaint request and the flag as they were: it recomputes
  nothing. A timer callback that finds the flag set clears it, runs \<^verbatim>\<open>updateChain\<close> once
  (on the component with the sample fifo drained) and requests a repaint. Any burst of
  notifications before a timer callback has the effect of a single one, so the chain is
  recomputed at most once per timer cycle. The callback returns whenever the sample
  fifo's cursors are in range, the parameters can be read and the mirror chain's pointers
  are valid.
\<close>

theorem parameter_change_only_sets_flag:
  "parameterValueChanged c i v = c\<lparr>parametersChanged := True\<rparr>
   \<and> (\<forall>c'. \<not> parametersChanged c \<and> timerCallback L c = Some (Inr c') \<longrightarrow>
          monoChain c' = monoChain c \<and> store (audioProcessor c') = store (audioProcessor c)
        \<and> repaintRequested c' = repaintRequested c \<and> \<not> parametersChanged c')
   \<and> (\<forall>c'. parametersChanged c \<and> timerCallback L c = Some (Inr c') \<longrightarrow>
          (\<exists>f buf c2. drainFifo (leftChannelFifo (audioProcessor c)) [] = Some (Inr (f, buf))
             \<and> updateChain L (c\<lparr>audioProcessor := (audioProcessor c)\<lparr>leftChannelFifo := f\<rparr>,
                                 parametersChanged := False\<rparr>) = Inr c2
             \<and> c' = c2\<lparr>repaintRequested := True\<rparr> \<and> \<not> parametersChanged c'))
   \<and> (\<forall>events. events \<noteq> [] \<longrightarrow>
          timerCallback L (foldl (\<lambda>c (i, v). parameterValueChanged c i v) c events)
            = timerCallback L (parameterValueChanged c i v))
   \<and> (Fifo_ok (audioBufferFifo (leftChannelFifo (audioProcessor c)))
        \<and> succeeds (getChainSettings (apvts (audioProcessor c)))
        \<and> chain_valid (store (audioProcessor c)) (monoChain c)
        \<longrightarrow> (\<exists>c'. timerCallback L c = Some (Inr c')))"
proof (intro conjI allI impI)
  show "parameterValueChanged c i v = c\<lparr>parametersChanged := True\<rparr>"
    by (simp add: parameterValueChanged_def)
next
  fix c' assume a: "\<not> parametersChanged c \<and> timerCallback L c = Some (Inr c')"
  then have "monoChain c' = monoChain c \<and> store (audioProcessor c') = store (audioProcessor c)
       \<and> repaintRequested c' = repaintRequested c \<and> \<not> parametersChanged c'"
    using timerCallback_idle[of c L c'] by blast
  then show "monoChain c' = monoChain c"
    "store (audioProcessor c') = store (audioProcessor c)"
    "repaintRequested c' = repaintRequested c" "\<not> parametersChanged c'"
    by simp_all
next
  fix c' assume "parametersChanged c \<and> timerCallback L c = Some (Inr c')"
  then show "\<exists>f buf c2. drainFifo (leftChannelFifo (audioProcessor c)) [] = Some (Inr (f, buf))
             \<and> updateChain L (c\<lparr>audioProcessor := (audioProcessor c)\<lparr>leftChannelFifo := f\<rparr>,
                                 parametersChanged := False\<rparr>) = Inr c2
             \<and> c' = c2\<lparr>repaintRequested := True\<rparr> \<and> \<not> parametersChanged c'"
    using timerCallback_changed[of c L c'] by blast
next
  fix events :: "(int \<times> real) list" assume "events \<noteq> []"
  then show "timerCallback L (foldl (\<lambda>c (i, v). parameterValueChanged c i v) c events)
            = timerCallback L (parameterValueChanged c i v)"
    by (rule timerCallback_burst)
next
  assume "Fifo_ok (audioBufferFifo (leftChannelFifo (audioProcessor c)))
        \<and> succeeds (getChainSettings (apvts (audioProcessor c)))
        \<and> chain_valid (store (audioProcessor c)) (monoChain c)"
  then show "\<exists>c'. timerCallback L c = Some (Inr c')"
    using timerCallback_succeeds[of c L] by blast
qed

lemma getChainSettings_example: "succeeds (getChainSettings params_example)"
  by (simp add: getChainSettings_def params_example_def getRawParameterValue_def
      Slope_of_float_def truncate_float_def)

lemma chain_at_valid: "base + 9 \<le> length h \<Longrightarrow> chain_valid h (chain_at base)"
  by (simp add: chain_valid_def cut_valid_def chain_at_def deref_def)

lemma collector_example_ok: "collector_ok collector_example"
  "collector_ok (collector_example\<lparr>channelToUse := Left\<rparr>)"
  using Fifo_new_ok[of "[[0, 0::real]]"]
  by (simp_all add: collector_ok_def collector_example_def)

subsection \<open>\<^verbatim>\<open>processBlock\<close> and the number of channels\<close>

text \<open>
  C10. \<^verbatim>\<open>processBlock\<close> returns normally only for a buffer of at least 2 channels. For a
  buffer of fewer than 2 channels on which the clearing loop and \<^verbatim>\<open>updateFilters\<close> succeed,
  it fails with a channel index out of range, at \<^verbatim>\<open>getSingleChannelBlock\<close>; and the update of
  a sample fifo that reads channel \<^verbatim>\<open>Left\<close> (index 1) fails on such a buffer. With at least 2
  channels it succeeds on a well-formed processor. \<^verbatim>\<open>isBusesLayoutSupported\<close> nevertheless
  accepts the mono layout, which has one channel.
\<close>

theorem processBlock_needs_two_channels:
  "(\<forall>r. processBlock L p buffer = Inr r \<longrightarrow> 2 \<le> length buffer)
   \<and> (length buffer < 2
        \<and> succeeds (clear_channels buffer [totalNumInputChannels p..totalNumOutputChannels p - 1])
        \<and> succeeds (updateFilters L p)
        \<longrightarrow> processBlock L p buffer = Inl ChannelOutOfRange)
   \<and> (2 \<le> length buffer
        \<and> 0 \<le> totalNumInputChannels p \<and> totalNumOutputChannels p \<le> int (length buffer)
        \<and> succeeds (getChainSettings (apvts p))
        \<and> chain_valid (store p) (leftChain p) \<and> chain_valid (store p) (rightChain p)
        \<and> prepared (leftChannelFifo p) \<and> collector_ok (leftChannelFifo p)
        \<and> prepared (rightChannelFifo p) \<and> collector_ok (rightChannelFifo p)
        \<longrightarrow> succeeds (processBlock L p buffer))
   \<and> (\<forall>s. channelToUse s = Left \<and> length buffer < 2 \<longrightarrow> \<not> succeeds (update_fifo s buffer))
   \<and> isBusesLayoutSupported \<lparr>mainInputChannelSet = mono, mainOutputChannelSet = mono\<rparr>
   \<and> AudioChannelSet_size mono = 1"
proof (intro conjI allI impI)
  fix r assume "processBlock L p buffer = Inr r"
  then show "2 \<le> length buffer" by (rule processBlock_Inr_channels)
next
  assume "length buffer < 2
        \<and> succeeds (clear_channels buffer [totalNumInputChannels p..totalNumOutputChannels p - 1])
        \<and> succeeds (updateFilters L p)"
  then show "processBlock L p buffer = Inl ChannelOutOfRange"
    using processBlock_too_few_channels[of buffer p L] by blast
next
  assume "2 \<le> length buffer
        \<and> 0 \<le> totalNumInputChannels p \<and> totalNumOutputChannels p \<le> int (length buffer)
        \<and> succeeds (getChainSettings (apvts p))
        \<and> chain_valid (store p) (leftChain p) \<and> chain_valid (store p) (rightChain p)
        \<and> prepared (leftChannelFifo p) \<and> collector_ok (leftChannelFifo p)
        \<and> prepared (rightChannelFifo p) \<and> collector_ok (rightChannelFifo p)"
  then show "succeeds (processBlock L p buffer)"
    using processBlock_ok[of buffer p L] by blast
next
  fix s :: SingleChannelSampleFifo assume "channelToUse s = Left \<and> length buffer < 2"
  then show "\<not> succeeds (update_fifo s buffer)"
    by (auto simp: update_fifo_def getNumChannels_def)
next
  show "isBusesLayoutSupported \<lparr>mainInputChannelSet = mono, mainOutputChannelSet = mono\<rparr>"
    by (simp add: isBusesLayoutSupported_def)
  show "AudioChannelSet_size mono = 1" by simp
qed


lemma component_example_ready:
  "Fifo_ok (audioBufferFifo (leftChannelFifo (audioProcessor component_example)))"
  "succeeds (getChainSettings (apvts (audioProcessor component_example)))"
  "chain_valid (store (audioProcessor component_example)) (monoChain component_example)"
  using Fifo_new_ok[of "[[0, 0::real]]"] getChainSettings_example chain_at_valid[of 18]
  by (simp_all add: component_example_def processor_example_def collector_example_def)

theorem parameter_change_only_sets_flag_witness:
  "parameterValueChanged component_example 0 5 = component_example\<lparr>parametersChanged := True\<rparr>
   \<and> (\<exists>c'. timerCallback probe component_example = Some (Inr c')
          \<and> monoChain c' = monoChain component_example
          \<and> store (audioProcessor c') = store (audioProcessor component_example)
          \<and> \<not> repaintRequested c' \<and> \<not> parametersChanged c')
   \<and> (\<exists>c'. timerCallback probe (parameterValueChanged component_example 0 5) = Some (Inr c')
          \<and> repaintRequested c' \<and> \<not> parametersChanged c')
   \<and> timerCallback probe
        (foldl (\<lambda>c (i, v). parameterValueChanged c i v) component_example [(0, 5), (1, 7), (0, 6)])
      = timerCallback probe (parameterValueChanged component_example 0 5)"
proof -
  let ?c1 = "parameterValueChanged component_example 0 5"
  note t0 = parameter_change_only_sets_flag[of component_example 0 5 probe]
  note t1 = parameter_change_only_sets_flag[of ?c1 0 5 probe]
  have f0: "\<not> parametersChanged component_example" "\<not> repaintRequested component_example"
    by (simp_all add: component_example_def)
  have c1: "?c1 = component_example\<lparr>parametersChanged := True\<rparr>" using t0 by blast
  have f1: "parametersChanged ?c1" by (simp add: c1)
  have r1: "Fifo_ok (audioBufferFifo (leftChannelFifo (audioProcessor ?c1)))"
    "succeeds (getChainSettings (apvts (audioProcessor ?c1)))"
    "chain_valid (store (audioProcessor ?c1)) (monoChain ?c1)"
    using component_example_ready by (simp_all add: c1)
  from t0 component_example_ready obtain c0' where
    a0: "timerCallback probe component_example = Some (Inr c0')" by blast
  with t0 f0 have b0: "monoChain c0' = monoChain component_example
       \<and> store (audioProcessor c0') = store (audioProcessor component_example)
       \<and> \<not> repaintRequested c0' \<and> \<not> parametersChanged c0'" by simp
  from t1 r1 obtain c1' where a1: "timerCallback probe ?c1 = Some (Inr c1')" by blast
  with t1 f1 obtain c2 where "c1' = c2\<lparr>repaintRequested := True\<rparr>" "\<not> parametersChanged c1'"
    by blast
  then have b1: "repaintRequested c1' \<and> \<not> parametersChanged c1'" by simp
  have "timerCallback probe
        (foldl (\<lambda>c (i, v). parameterValueChanged c i v) component_example [(0, 5), (1, 7), (0, 6)])
      = timerCallback probe ?c1"
    using t0 by blast
  then show ?thesis using c1 a0 b0 a1 b1 by blast
qed

theorem processBlock_needs_two_channels_witness:
  "processBlock probe processor_example [[1, 2]] = Inl ChannelOutOfRange
   \<and> succeeds (processBlock probe processor_example [[1, 2], [3, 4]])
   \<and> isBusesLayoutSupported \<lparr>mainInputChannelSet = mono, mainOutputChannelSet = mono\<rparr>"
proof -
  note t1 = processBlock_needs_two_channels[of probe processor_example "[[1, 2]]"]
  note t2 = processBlock_needs_two_channels[of probe processor_example "[[1, 2], [3, 4]]"]
  have v: "succeeds (getChainSettings (apvts processor_example))"
    "chain_valid (store processor_example) (leftChain processor_example)"
    "chain_valid (store processor_example) (rightChain processor_example)"
    using getChainSettings_example chain_at_valid[of 0] chain_at_valid[of 9]
    by (simp_all add: processor_example_def)
  have u: "succeeds (updateFilters probe processor_example)"
    using updateFilters_ok[OF v, of probe] by (auto simp: succeeds_iff)
  have c: "succeeds (clear_channels [[1, 2]]
      [totalNumInputChannels processor_example..totalNumOutputChannels processor_example - 1])"
    by (simp add: processor_example_def)
  have one: "processBlock probe processor_example [[1, 2]] = Inl ChannelOutOfRange"
    using t1 c u by simp
  have f: "prepared (leftChannelFifo processor_example)"
    "collector_ok (leftChannelFifo processor_example)"
    "prepared (rightChannelFifo processor_example)"
    "collector_ok (rightChannelFifo processor_example)"
    "0 \<le> totalNumInputChannels processor_example"
    "totalNumOutputChannels processor_example \<le> int (length [[1, 2], [3, 4::real]])"
    using collector_example_ok
    by (simp_all add: processor_example_def collector_example_def)
  have two: "succeeds (processBlock probe processor_example [[1, 2], [3, 4]])"
    using t2 v f by simp
  show ?thesis using one two t1 by blast
qed

end
